theory Spec2Isabelle
  imports Main
begin

section \<open>Strings, time and exceptions\<close>

text \<open>
  A Python \<open>str\<close> is a sequence of Unicode code points; it is modelled as the list of
  its code points.  \<open>ascii\<close> turns an ASCII literal into such a list.  A \<open>datetime\<close> is
  the number of microseconds since the epoch (UTC), a \<open>timedelta\<close> a number of
  microseconds.  \<open>bytes\<close> are lists of numbers below 256.
\<close>

type_synonym pystr = "nat list"

type_synonym datetime = int

type_synonym timedelta = int

definition ascii :: "string \<Rightarrow> pystr" where
  "ascii s = map of_char s"

text \<open>
  The code points of a \<open>str\<close> are below 0x110000 (\<open>is_str\<close>).  A \<open>str\<close> may hold
  surrogate code points: the high ones are 0xD800..0xDBFF, the low ones 0xDC00..0xDFFF.
\<close>

definition is_str :: "pystr \<Rightarrow> bool" where
  "is_str s = list_all (\<lambda>c. c < 1114112) s"

definition is_high :: "nat \<Rightarrow> bool" where
  "is_high c = (55296 \<le> c \<and> c \<le> 56319)"

definition is_low :: "nat \<Rightarrow> bool" where
  "is_low c = (56320 \<le> c \<and> c \<le> 57343)"

text \<open>
  Python's truth value of an optional sequence (\<open>if x:\<close>): \<open>None\<close> and the empty
  sequence are false.  The same for an optional integer: \<open>None\<close> and 0 are false.
\<close>

definition truthy :: "'a list option \<Rightarrow> bool" where
  "truthy v = (case v of None \<Rightarrow> False | Some xs \<Rightarrow> xs \<noteq> [])"

definition truthy_int :: "int option \<Rightarrow> bool" where
  "truthy_int v = (case v of None \<Rightarrow> False | Some n \<Rightarrow> n \<noteq> 0)"

text \<open>
  Exceptions are values.  \<open>HTTPException\<close> carries the status code; a pydantic
  \<open>ValidationError\<close> raised inside a route is not handled by the application (the
  framework answers 500); \<open>IntegrityError\<close> is the store's unique-constraint failure;
  \<open>UnknownHashError\<close> and \<open>HandlerError\<close> are the password library's errors.
\<close>

datatype exn =
    HTTPException nat
  | ValidationError
  | IntegrityError
  | UnknownHashError
  | HandlerError

section \<open>The json module: \<open>json.dumps\<close> and \<open>json.loads\<close>\<close>

text \<open>
  The values \<open>json.loads\<close> returns.  A float is kept as its lexeme (\<open>NaN\<close>,
  \<open>Infinity\<close> and \<open>-Infinity\<close> are floats too); an object is the list of its pairs in
  the order of the text.
\<close>

datatype json =
    JNull
  | JBool bool
  | JInt int
  | JFloat pystr
  | JStr pystr
  | JArr "json list"
  | JObj "(pystr \<times> json) list"

subsection \<open>Encoding a list of strings\<close>

text \<open>
  \<open>json.dumps\<close> with its defaults (\<open>ensure_ascii=True\<close>, separators \<open>", "\<close>) on a list
  of strings.  A character is written as itself when it is printable ASCII other than
  the quote and the backslash; the quote, the backslash and the five control characters
  with a short form get that form; every other character is written as
  \<open>\uXXXX\<close> (lower-case hexadecimal), one beyond 0xFFFF as a surrogate pair.
\<close>

definition hexdigit :: "nat \<Rightarrow> nat" where
  "hexdigit d = (if d < 10 then 48 + d else 87 + d)"

definition hex4 :: "nat \<Rightarrow> pystr" where
  "hex4 n = [hexdigit (n div 4096 mod 16), hexdigit (n div 256 mod 16),
             hexdigit (n div 16 mod 16), hexdigit (n mod 16)]"

definition u_escape :: "nat \<Rightarrow> pystr" where
  "u_escape n = [92, 117] @ hex4 n"

definition escape_char :: "nat \<Rightarrow> pystr" where
  "escape_char c =
     (if c = 34 then [92, 34]
      else if c = 92 then [92, 92]
      else if c = 8 then [92, 98]
      else if c = 12 then [92, 102]
      else if c = 10 then [92, 110]
      else if c = 13 then [92, 114]
      else if c = 9 then [92, 116]
      else if 32 \<le> c \<and> c \<le> 126 then [c]
      else if c < 65536 then u_escape c
      else u_escape (55296 + ((c - 65536) div 1024) mod 1024)
           @ u_escape (56320 + (c - 65536) mod 1024))"

definition encode_basestring_ascii :: "pystr \<Rightarrow> pystr" where
  "encode_basestring_ascii s = [34] @ concat (map escape_char s) @ [34]"

fun join_items :: "pystr list \<Rightarrow> pystr" where
  "join_items [] = []"
| "join_items [x] = x"
| "join_items (x # y # ys) = x @ [44, 32] @ join_items (y # ys)"

definition json_dumps :: "pystr list \<Rightarrow> pystr" where
  "json_dumps xs = [91] @ join_items (map encode_basestring_ascii xs) @ [93]"

subsection \<open>Decoding\<close>

definition is_ws :: "nat \<Rightarrow> bool" where
  "is_ws c = (c = 32 \<or> c = 9 \<or> c = 10 \<or> c = 13)"

definition skip_ws :: "pystr \<Rightarrow> pystr" where
  "skip_ws s = dropWhile is_ws s"

definition is_digit :: "nat \<Rightarrow> bool" where
  "is_digit c = (48 \<le> c \<and> c \<le> 57)"

definition hexval :: "nat \<Rightarrow> nat option" where
  "hexval c =
     (if 48 \<le> c \<and> c \<le> 57 then Some (c - 48)
      else if 97 \<le> c \<and> c \<le> 102 then Some (c - 87)
      else if 65 \<le> c \<and> c \<le> 70 then Some (c - 55)
      else None)"

definition hex_number :: "nat \<Rightarrow> nat \<Rightarrow> nat \<Rightarrow> nat \<Rightarrow> nat" where
  "hex_number x y z w = ((x * 16 + y) * 16 + z) * 16 + w"

text \<open>The four hexadecimal digits after \<open>\u\<close>; \<open>None\<close> is "Invalid \uXXXX escape".\<close>

definition decode_uXXXX :: "pystr \<Rightarrow> nat option" where
  "decode_uXXXX s =
     (case s of
        a # b # c # d # _ \<Rightarrow>
          (case hexval a of None \<Rightarrow> None | Some x \<Rightarrow>
           case hexval b of None \<Rightarrow> None | Some y \<Rightarrow>
           case hexval c of None \<Rightarrow> None | Some z \<Rightarrow>
           case hexval d of None \<Rightarrow> None | Some w \<Rightarrow>
             Some (hex_number x y z w))
      | _ \<Rightarrow> None)"

definition backslash :: "nat \<Rightarrow> nat option" where
  "backslash esc =
     (if esc = 34 then Some 34
      else if esc = 92 then Some 92
      else if esc = 47 then Some 47
      else if esc = 98 then Some 8
      else if esc = 102 then Some 12
      else if esc = 110 then Some 10
      else if esc = 114 then Some 13
      else if esc = 116 then Some 9
      else None)"

definition emit :: "nat \<Rightarrow> (pystr \<times> pystr) option \<Rightarrow> (pystr \<times> pystr) option" where
  "emit ch res = (case res of None \<Rightarrow> None | Some (out, rest) \<Rightarrow> Some (ch # out, rest))"

text \<open>
  \<open>scanstring\<close> reads a string body after its opening quote and returns the decoded
  string and the text after the closing quote.  It fails on an unterminated string, on
  a control character (strict mode), on an unknown escape and on a bad \<open>\uXXXX\<close>.  A
  high surrogate escape directly followed by a low surrogate escape is one character.
\<close>

fun scanstring :: "pystr \<Rightarrow> (pystr \<times> pystr) option" where
  "scanstring [] = None"
| "scanstring (c # cs) =
     (if c = 34 then Some ([], cs)
      else if c = 92 then
        (case cs of
           [] \<Rightarrow> None
         | esc # r \<Rightarrow>
             if esc \<noteq> 117 then
               (case backslash esc of
                  None \<Rightarrow> None
                | Some ch \<Rightarrow> emit ch (scanstring r))
             else
               (case decode_uXXXX r of
                  None \<Rightarrow> None
                | Some uni \<Rightarrow>
                    if 55296 \<le> uni \<and> uni \<le> 56319 \<and> take 2 (drop 4 r) = [92, 117] then
                      (case decode_uXXXX (drop 6 r) of
                         None \<Rightarrow> None
                       | Some uni2 \<Rightarrow>
                           if 56320 \<le> uni2 \<and> uni2 \<le> 57343
                           then emit (65536 + ((uni - 55296) * 1024 + (uni2 - 56320)))
                                  (scanstring (drop 10 r))
                           else emit uni (scanstring (drop 4 r)))
                    else emit uni (scanstring (drop 4 r))))
      else if c < 32 then None
      else emit c (scanstring cs))"

definition strip_prefix :: "pystr \<Rightarrow> pystr \<Rightarrow> pystr option" where
  "strip_prefix p s = (if take (length p) s = p then Some (drop (length p) s) else None)"

definition digits_value :: "pystr \<Rightarrow> int" where
  "digits_value ds = fold (\<lambda>d acc. acc * 10 + int (d - 48)) ds 0"

text \<open>
  Numbers, as the scanner's pattern
  \<^verbatim>\<open>(-?(?:0|[1-9][0-9]*))(\.[0-9]+)?([eE][-+]?[0-9]+)?\<close>
  matches them: the integer part, then an optional fraction, then an optional exponent.
\<close>

definition match_integer :: "pystr \<Rightarrow> (pystr \<times> pystr) option" where
  "match_integer s =
     (let (sign, s1) = (case s of [] \<Rightarrow> ([], s)
                        | c # r \<Rightarrow> if c = 45 then ([45], r) else ([], s))
      in case s1 of
           [] \<Rightarrow> None
         | d # r \<Rightarrow>
             if d = 48 then Some (sign @ [48], r)
             else if 49 \<le> d \<and> d \<le> 57
               then Some (sign @ d # takeWhile is_digit r, dropWhile is_digit r)
             else None)"

definition match_frac :: "pystr \<Rightarrow> pystr \<times> pystr" where
  "match_frac s =
     (case s of
        [] \<Rightarrow> ([], s)
      | c # r \<Rightarrow>
          if c = 46 \<and> takeWhile is_digit r \<noteq> []
          then (46 # takeWhile is_digit r, dropWhile is_digit r)
          else ([], s))"

definition match_exp :: "pystr \<Rightarrow> pystr \<times> pystr" where
  "match_exp s =
     (case s of
        [] \<Rightarrow> ([], s)
      | c # r \<Rightarrow>
          if c = 101 \<or> c = 69 then
            (let (sign, r1) = (case r of [] \<Rightarrow> ([], r)
                               | g # r' \<Rightarrow> if g = 45 \<or> g = 43 then ([g], r') else ([], r))
             in if takeWhile is_digit r1 \<noteq> []
                then (c # sign @ takeWhile is_digit r1, dropWhile is_digit r1)
                else ([], s))
          else ([], s))"

definition match_number :: "pystr \<Rightarrow> (json \<times> pystr) option" where
  "match_number s =
     (case match_integer s of
        None \<Rightarrow> None
      | Some (integer, r) \<Rightarrow>
          (let (frac, r1) = match_frac r; (ex, r2) = match_exp r1
           in if frac \<noteq> [] \<or> ex \<noteq> []
              then Some (JFloat (integer @ frac @ ex), r2)
              else Some (JInt (case integer of
                                 [] \<Rightarrow> 0
                               | c # ds \<Rightarrow> if c = 45 then - digits_value ds
                                           else digits_value integer), r2)))"

text \<open>The values that are neither a string nor an object nor an array, in the scanner's order.\<close>

definition scan_atom :: "pystr \<Rightarrow> (json \<times> pystr) option" where
  "scan_atom s =
     (case strip_prefix (ascii ''null'') s of Some r \<Rightarrow> Some (JNull, r) | None \<Rightarrow>
      case strip_prefix (ascii ''true'') s of Some r \<Rightarrow> Some (JBool True, r) | None \<Rightarrow>
      case strip_prefix (ascii ''false'') s of Some r \<Rightarrow> Some (JBool False, r) | None \<Rightarrow>
      case match_number s of Some res \<Rightarrow> Some res | None \<Rightarrow>
      case strip_prefix (ascii ''NaN'') s of Some r \<Rightarrow> Some (JFloat (ascii ''NaN''), r) | None \<Rightarrow>
      case strip_prefix (ascii ''Infinity'') s of
        Some r \<Rightarrow> Some (JFloat (ascii ''Infinity''), r) | None \<Rightarrow>
      case strip_prefix (ascii ''-Infinity'') s of
        Some r \<Rightarrow> Some (JFloat (ascii ''-Infinity''), r) | None \<Rightarrow>
      None)"

text \<open>
  The recursive descent of the scanner.  \<open>parse_array\<close> and \<open>parse_object\<close> start at
  the first element of a non-empty array or object and read it with \<open>scan_once\<close>.
  \<open>None\<close> is \<open>JSONDecodeError\<close>.  The first argument is fuel: it goes down by one
  where \<open>scan_once\<close> enters an array or an object and where a further element is read.
  \<open>json_loads\<close> starts with more fuel than the text has characters, which is enough:
  more fuel never changes a result (\<open>fuel_adequate\<close> below).  The interpreter's own
  limits (its recursion depth, the digits of an integer) are not part of the model.
\<close>

fun scan_once :: "nat \<Rightarrow> pystr \<Rightarrow> (json \<times> pystr) option"
  and parse_array :: "nat \<Rightarrow> pystr \<Rightarrow> (json list \<times> pystr) option"
  and parse_object :: "nat \<Rightarrow> pystr \<Rightarrow> ((pystr \<times> json) list \<times> pystr) option"
where
  "scan_once 0 s = None"
| "scan_once (Suc n) s =
     (case s of
        [] \<Rightarrow> None
      | c # cs \<Rightarrow>
          if c = 34 then
            (case scanstring cs of None \<Rightarrow> None | Some (str, r) \<Rightarrow> Some (JStr str, r))
          else if c = 123 then
            (case skip_ws cs of
               [] \<Rightarrow> None
             | d # r \<Rightarrow>
                 if d = 125 then Some (JObj [], r)
                 else (case parse_object n (d # r) of
                         None \<Rightarrow> None
                       | Some (pairs, r') \<Rightarrow> Some (JObj pairs, r')))
          else if c = 91 then
            (case skip_ws cs of
               [] \<Rightarrow> None
             | d # r \<Rightarrow>
                 if d = 93 then Some (JArr [], r)
                 else (case parse_array n (d # r) of
                         None \<Rightarrow> None
                       | Some (vals, r') \<Rightarrow> Some (JArr vals, r')))
          else scan_atom s)"
| "parse_array 0 s = None"
| "parse_array (Suc n) s =
     (case scan_once (Suc n) s of
        None \<Rightarrow> None
      | Some (v, r) \<Rightarrow>
          (case skip_ws r of
             [] \<Rightarrow> None
           | d # r' \<Rightarrow>
               if d = 93 then Some ([v], r')
               else if d = 44 then
                 (case parse_array n (skip_ws r') of
                    None \<Rightarrow> None
                  | Some (vs, r'') \<Rightarrow> Some (v # vs, r''))
               else None))"
| "parse_object 0 s = None"
| "parse_object (Suc n) s =
     (case s of
        [] \<Rightarrow> None
      | q # s1 \<Rightarrow>
          if q \<noteq> 34 then None
          else
            (case scanstring s1 of
               None \<Rightarrow> None
             | Some (key, r) \<Rightarrow>
                 (case skip_ws r of
                    [] \<Rightarrow> None
                  | colon # r1 \<Rightarrow>
                      if colon \<noteq> 58 then None
                      else
                        (case scan_once (Suc n) (skip_ws r1) of
                           None \<Rightarrow> None
                         | Some (v, r2) \<Rightarrow>
                             (case skip_ws r2 of
                                [] \<Rightarrow> None
                              | d # r3 \<Rightarrow>
                                  if d = 125 then Some ([(key, v)], r3)
                                  else if d = 44 then
                                    (case parse_object n (skip_ws r3) of
                                       None \<Rightarrow> None
                                     | Some (pairs, r4) \<Rightarrow> Some ((key, v) # pairs, r4))
                                  else None)))))"

definition json_loads :: "pystr \<Rightarrow> json option" where
  "json_loads s =
     (case scan_once (Suc (length s)) (skip_ws s) of
        None \<Rightarrow> None
      | Some (v, r) \<Rightarrow> if skip_ws r = [] then Some v else None)"

subsection \<open>Validation of a field of type \<open>Optional[List[str]]\<close>\<close>

text \<open>
  pydantic accepts \<open>None\<close> and a list whose elements are all of type \<open>str\<close>, whatever
  their code points, and raises \<open>ValidationError\<close> on every other value.
\<close>

fun as_str :: "json \<Rightarrow> pystr option" where
  "as_str (JStr s) = Some s"
| "as_str _ = None"

definition validate_str_list :: "json \<Rightarrow> exn + pystr list option" where
  "validate_str_list v =
     (case v of
        JNull \<Rightarrow> Inr None
      | JArr vs \<Rightarrow>
          if list_all (\<lambda>x. as_str x \<noteq> None) vs then Inr (Some (map (\<lambda>x. the (as_str x)) vs))
          else Inl ValidationError
      | _ \<Rightarrow> Inl ValidationError)"

section \<open>The data model (models.py, schemas.py)\<close>

text \<open>
  The rows of the tables \<open>users\<close> and \<open>problems\<close>, a field per column.  The two tag
  columns of a problem hold text (the JSON encoding of a list) or NULL.
\<close>

record user =
  u_id :: int
  u_uuid :: pystr
  u_username :: pystr
  u_hashed_password :: pystr
  u_nickname :: "pystr option"
  u_is_active :: bool
  u_is_admin :: bool
  u_created_at :: datetime

record problem =
  p_id :: int
  p_owner_id :: "int option"
  p_source_type :: pystr
  p_raw :: "pystr option"
  p_file_content :: "pystr option"
  p_parsed :: "pystr option"
  p_subject :: "pystr option"
  p_course :: "pystr option"
  p_problem_type :: "pystr option"
  p_knowledge_tags :: "pystr option"
  p_difficulty :: "int option"
  p_is_bookmarked :: bool
  p_tags :: "pystr option"
  p_notes :: "pystr option"
  p_created_at :: datetime
  p_updated_at :: datetime

text \<open>The request and response models of schemas.py.\<close>

record user_create =
  uc_username :: pystr
  uc_password :: pystr
  uc_nickname :: "pystr option"

record problem_create =
  pc_source_type :: pystr
  pc_raw :: pystr
  pc_file_content :: "pystr option"
  pc_subject :: "pystr option"
  pc_course :: "pystr option"
  pc_problem_type :: "pystr option"
  pc_knowledge_tags :: "pystr list option"
  pc_difficulty :: "int option"
  pc_tags :: "pystr list option"
  pc_notes :: "pystr option"

record problem_update =
  pu_subject :: "pystr option"
  pu_course :: "pystr option"
  pu_problem_type :: "pystr option"
  pu_knowledge_tags :: "pystr list option"
  pu_difficulty :: "int option"
  pu_is_bookmarked :: "bool option"
  pu_tags :: "pystr list option"
  pu_notes :: "pystr option"

record problem_out =
  po_id :: int
  po_owner_id :: "int option"
  po_source_type :: pystr
  po_file_content :: "pystr option"
  po_subject :: "pystr option"
  po_course :: "pystr option"
  po_problem_type :: "pystr option"
  po_knowledge_tags :: "pystr list option"
  po_difficulty :: "int option"
  po_is_bookmarked :: bool
  po_tags :: "pystr list option"
  po_notes :: "pystr option"
  po_created_at :: datetime
  po_updated_at :: datetime

text \<open>
  The store holds the rows of each table in row order.  The values a request draws from
  its environment (the clock, \<open>uuid4()\<close>, the salt of the password hash) are passed in
  explicitly.
\<close>

record database =
  users :: "user list"
  problems :: "problem list"

record env =
  env_now :: datetime
  env_uuid4 :: pystr
  env_salt :: pystr

text \<open>A new row gets the primary key after the largest one in the table (1 in an empty table).\<close>

definition next_id :: "int list \<Rightarrow> int" where
  "next_id ids = fold max ids 0 + 1"

section \<open>Password hashing (crud.py)\<close>

text \<open>
  \<open>pwd_context = CryptContext(schemes=["pbkdf2_sha256"], deprecated="auto")\<close>.
  The context identifies the scheme of a stored hash by the scheme's prefix and hands
  the hash to the scheme's handler; a hash that no configured scheme identifies raises
  \<open>UnknownHashError\<close>.  The handler itself (the key derivation, the parsing of an
  identified hash) is a parameter: \<open>h_hash secret salt\<close> is the hash string, and
  \<open>h_verify secret hash\<close> is the handler's answer or the exception it raises.
\<close>

record pwd_handler =
  h_hash :: "pystr \<Rightarrow> pystr \<Rightarrow> pystr"
  h_verify :: "pystr \<Rightarrow> pystr \<Rightarrow> exn + bool"

definition pbkdf2_sha256_ident :: pystr where
  "pbkdf2_sha256_ident = ascii ''$pbkdf2-sha256$''"

definition identify :: "pystr \<Rightarrow> bool" where
  "identify hash = (take (length pbkdf2_sha256_ident) hash = pbkdf2_sha256_ident)"

definition pwd_context_hash :: "pwd_handler \<Rightarrow> pystr \<Rightarrow> pystr \<Rightarrow> pystr" where
  "pwd_context_hash H salt secret = h_hash H secret salt"

definition pwd_context_verify :: "pwd_handler \<Rightarrow> pystr \<Rightarrow> pystr \<Rightarrow> exn + bool" where
  "pwd_context_verify H secret hash =
     (if identify hash then h_verify H secret hash else Inl UnknownHashError)"

definition get_password_hash :: "pwd_handler \<Rightarrow> pystr \<Rightarrow> pystr \<Rightarrow> pystr" where
  "get_password_hash H salt password = pwd_context_hash H salt password"

definition verify_password :: "pwd_handler \<Rightarrow> pystr \<Rightarrow> pystr \<Rightarrow> exn + bool" where
  "verify_password H plain hashed = pwd_context_verify H plain hashed"

text \<open>
  The test doubles of conftest.py, which the tests put in place of the two functions
  above.
\<close>

definition mock_password_hash :: "pystr \<Rightarrow> pystr" where
  "mock_password_hash password = ascii ''hashed_'' @ password @ ascii ''_hashed''"

definition mock_verify_password :: "pystr \<Rightarrow> pystr \<Rightarrow> bool" where
  "mock_verify_password plain hashed = (ascii ''hashed_'' @ plain @ ascii ''_hashed'' = hashed)"

section \<open>Users (crud.py)\<close>

definition get_user_by_username :: "database \<Rightarrow> pystr \<Rightarrow> user option" where
  "get_user_by_username db username = find (\<lambda>u. u_username u = username) (users db)"

text \<open>
  \<open>create_user\<close>: the columns \<open>uuid\<close> and \<open>username\<close> are unique, so the commit raises
  \<open>IntegrityError\<close> when either value is already in the table, and the table is then
  left as it was.
\<close>

definition create_user ::
  "pwd_handler \<Rightarrow> env \<Rightarrow> database \<Rightarrow> user_create \<Rightarrow> (exn + user) \<times> database" where
  "create_user H e db user_in =
     (let user = \<lparr> u_id = next_id (map u_id (users db)),
                    u_uuid = env_uuid4 e,
                    u_username = uc_username user_in,
                    u_hashed_password = get_password_hash H (env_salt e) (uc_password user_in),
                    u_nickname = uc_nickname user_in,
                    u_is_active = True,
                    u_is_admin = False,
                    u_created_at = env_now e \<rparr>
      in if uc_username user_in \<in> set (map u_username (users db))
            \<or> env_uuid4 e \<in> set (map u_uuid (users db))
         then (Inl IntegrityError, db)
         else (Inr user, db\<lparr>users := users db @ [user]\<rparr>))"

definition authenticate_user ::
  "pwd_handler \<Rightarrow> database \<Rightarrow> pystr \<Rightarrow> pystr \<Rightarrow> exn + user option" where
  "authenticate_user H db username password =
     (case get_user_by_username db username of
        None \<Rightarrow> Inr None
      | Some user \<Rightarrow>
          (case verify_password H password (u_hashed_password user) of
             Inl err \<Rightarrow> Inl err
           | Inr ok \<Rightarrow> if \<not> ok then Inr None else Inr (Some user)))"

fun replace_user :: "user \<Rightarrow> user list \<Rightarrow> user list" where
  "replace_user u [] = []"
| "replace_user u (v # vs) = (if u_id v = u_id u then u # vs else v # replace_user u vs)"

definition set_user_active :: "database \<Rightarrow> int \<Rightarrow> bool \<Rightarrow> user option \<times> database" where
  "set_user_active db user_id active =
     (case find (\<lambda>u. u_id u = user_id) (users db) of
        None \<Rightarrow> (None, db)
      | Some user \<Rightarrow>
          (let user' = user\<lparr>u_is_active := active\<rparr>
           in (Some user', db\<lparr>users := replace_user user' (users db)\<rparr>)))"

section \<open>Problems (crud.py, schemas.py)\<close>

text \<open>
  \<open>create_problem\<close> encodes a tag list with \<open>json.dumps\<close> when the list is true
  (neither \<open>None\<close> nor empty) and stores NULL otherwise.  The columns with a default
  (\<open>is_bookmarked\<close>, the two timestamps) get it; \<open>parsed\<close> stays NULL.
\<close>

definition create_problem ::
  "env \<Rightarrow> database \<Rightarrow> int \<Rightarrow> problem_create \<Rightarrow> problem \<times> database" where
  "create_problem e db owner_id problem_in =
     (let knowledge_tags_json =
            (if truthy (pc_knowledge_tags problem_in)
             then Some (json_dumps (the (pc_knowledge_tags problem_in))) else None);
          tags_json =
            (if truthy (pc_tags problem_in)
             then Some (json_dumps (the (pc_tags problem_in))) else None);
          p = \<lparr> p_id = next_id (map p_id (problems db)),
                p_owner_id = Some owner_id,
                p_source_type = pc_source_type problem_in,
                p_raw = Some (pc_raw problem_in),
                p_file_content = pc_file_content problem_in,
                p_parsed = None,
                p_subject = pc_subject problem_in,
                p_course = pc_course problem_in,
                p_problem_type = pc_problem_type problem_in,
                p_knowledge_tags = knowledge_tags_json,
                p_difficulty = pc_difficulty problem_in,
                p_is_bookmarked = False,
                p_tags = tags_json,
                p_notes = pc_notes problem_in,
                p_created_at = env_now e,
                p_updated_at = env_now e \<rparr>
      in (p, db\<lparr>problems := problems db @ [p]\<rparr>))"

definition get_problem :: "database \<Rightarrow> int \<Rightarrow> problem option" where
  "get_problem db problem_id = find (\<lambda>p. p_id p = problem_id) (problems db)"

text \<open>
  \<open>update_problem\<close>: the assignments to the row, one per field of the payload that is
  not \<open>None\<close>; then the commit.  The store writes the row when an assignment changed a
  column, and that write sets \<open>updated_at\<close> (\<open>onupdate\<close>); with no change nothing is
  written.
\<close>

definition assign_fields :: "problem_update \<Rightarrow> problem \<Rightarrow> problem" where
  "assign_fields problem_in p =
     (let p1 = (case pu_subject problem_in of None \<Rightarrow> p
                | Some v \<Rightarrow> p\<lparr>p_subject := Some v\<rparr>);
          p2 = (case pu_course problem_in of None \<Rightarrow> p1
                | Some v \<Rightarrow> p1\<lparr>p_course := Some v\<rparr>);
          p3 = (case pu_problem_type problem_in of None \<Rightarrow> p2
                | Some v \<Rightarrow> p2\<lparr>p_problem_type := Some v\<rparr>);
          p4 = (case pu_knowledge_tags problem_in of None \<Rightarrow> p3
                | Some v \<Rightarrow> p3\<lparr>p_knowledge_tags := Some (json_dumps v)\<rparr>);
          p5 = (case pu_difficulty problem_in of None \<Rightarrow> p4
                | Some v \<Rightarrow> p4\<lparr>p_difficulty := Some v\<rparr>);
          p6 = (case pu_is_bookmarked problem_in of None \<Rightarrow> p5
                | Some v \<Rightarrow> p5\<lparr>p_is_bookmarked := v\<rparr>);
          p7 = (case pu_tags problem_in of None \<Rightarrow> p6
                | Some v \<Rightarrow> p6\<lparr>p_tags := Some (json_dumps v)\<rparr>);
          p8 = (case pu_notes problem_in of None \<Rightarrow> p7
                | Some v \<Rightarrow> p7\<lparr>p_notes := Some v\<rparr>)
      in p8)"

fun replace_problem :: "problem \<Rightarrow> problem list \<Rightarrow> problem list" where
  "replace_problem p [] = []"
| "replace_problem p (q # qs) =
     (if p_id q = p_id p then p # qs else q # replace_problem p qs)"

definition update_problem ::
  "env \<Rightarrow> database \<Rightarrow> int \<Rightarrow> problem_update \<Rightarrow> problem option \<times> database" where
  "update_problem e db problem_id problem_in =
     (case find (\<lambda>p. p_id p = problem_id) (problems db) of
        None \<Rightarrow> (None, db)
      | Some p \<Rightarrow>
          (let p1 = assign_fields problem_in p;
               p2 = (if p1 = p then p else p1\<lparr>p_updated_at := env_now e\<rparr>)
           in (Some p2, db\<lparr>problems := replace_problem p2 (problems db)\<rparr>)))"

text \<open>
  \<open>ProblemOut.from_orm\<close>.  The two validators run before the field's own validation:
  a stored text is decoded with \<open>json.loads\<close>, and a text that does not decode becomes
  \<open>None\<close>; NULL stays \<open>None\<close>.  The decoded value is then validated as
  \<open>Optional[List[str]]\<close>.
\<close>

definition parse_knowledge_tags :: "pystr option \<Rightarrow> json" where
  "parse_knowledge_tags v =
     (case v of
        Some s \<Rightarrow> (case json_loads s of Some j \<Rightarrow> j | None \<Rightarrow> JNull)
      | None \<Rightarrow> JNull)"

definition parse_tags :: "pystr option \<Rightarrow> json" where
  "parse_tags v =
     (case v of
        Some s \<Rightarrow> (case json_loads s of Some j \<Rightarrow> j | None \<Rightarrow> JNull)
      | None \<Rightarrow> JNull)"

definition ProblemOut_from_orm :: "problem \<Rightarrow> exn + problem_out" where
  "ProblemOut_from_orm p =
     (case validate_str_list (parse_knowledge_tags (p_knowledge_tags p)) of
        Inl err \<Rightarrow> Inl err
      | Inr knowledge_tags \<Rightarrow>
          (case validate_str_list (parse_tags (p_tags p)) of
             Inl err \<Rightarrow> Inl err
           | Inr tags \<Rightarrow>
               Inr \<lparr> po_id = p_id p,
                     po_owner_id = p_owner_id p,
                     po_source_type = p_source_type p,
                     po_file_content = p_file_content p,
                     po_subject = p_subject p,
                     po_course = p_course p,
                     po_problem_type = p_problem_type p,
                     po_knowledge_tags = knowledge_tags,
                     po_difficulty = p_difficulty p,
                     po_is_bookmarked = p_is_bookmarked p,
                     po_tags = tags,
                     po_notes = p_notes p,
                     po_created_at = p_created_at p,
                     po_updated_at = p_updated_at p \<rparr>))"

section \<open>Reading a stored problem back\<close>

text \<open>
  What the decoder makes of a string the encoder wrote.  The encoder writes a surrogate
  code point as an escape of its own, and the decoder reads a high surrogate escape
  directly followed by a low surrogate escape as one code point.  \<open>join_surrogates s\<close>
  is \<open>s\<close> with every high surrogate that is directly followed by a low one joined with
  it, from left to right; \<open>no_surrogate_pair s\<close> says that \<open>s\<close> holds no such pair.
\<close>

fun join_surrogates :: "pystr \<Rightarrow> pystr" where
  "join_surrogates (a # b # s) =
     (if is_high a \<and> is_low b
      then (65536 + ((a - 55296) * 1024 + (b - 56320))) # join_surrogates s
      else a # join_surrogates (b # s))"
| "join_surrogates [a] = [a]"
| "join_surrogates [] = []"

fun no_surrogate_pair :: "pystr \<Rightarrow> bool" where
  "no_surrogate_pair (a # b # s) = (\<not> (is_high a \<and> is_low b) \<and> no_surrogate_pair (b # s))"
| "no_surrogate_pair [a] = True"
| "no_surrogate_pair [] = True"

text \<open>
  A value of a field of type \<open>Optional[List[str]]\<close> (\<open>str_tags\<close>); such a value whose
  strings hold no surrogate pair (\<open>pair_free\<close>); and the value that is read back after
  it was stored by \<open>create_problem\<close> (\<open>read_tags\<close>): a false value is stored as NULL and
  read back as \<open>None\<close>.
\<close>

definition str_tags :: "pystr list option \<Rightarrow> bool" where
  "str_tags v = (case v of None \<Rightarrow> True | Some xs \<Rightarrow> list_all is_str xs)"

definition pair_free :: "pystr list option \<Rightarrow> bool" where
  "pair_free v = (case v of None \<Rightarrow> True | Some xs \<Rightarrow> list_all no_surrogate_pair xs)"

definition read_tags :: "pystr list option \<Rightarrow> pystr list option" where
  "read_tags v =
     (case v of
        None \<Rightarrow> None
      | Some xs \<Rightarrow> if xs = [] then None else Some (map join_surrogates xs))"

text \<open>
  The primary keys the store assigns are positive; \<open>ids_positive\<close> says so of the rows of
  \<open>users\<close>.
\<close>

definition ids_positive :: "database \<Rightarrow> bool" where
  "ids_positive db = list_all (\<lambda>u. 0 < u_id u) (users db)"

text \<open>The payload \<open>{subject: X}\<close> of a partial update: every other field is unset.\<close>

definition only_subject :: "pystr \<Rightarrow> problem_update" where
  "only_subject x = \<lparr> pu_subject = Some x, pu_course = None, pu_problem_type = None,
                      pu_knowledge_tags = None, pu_difficulty = None, pu_is_bookmarked = None,
                      pu_tags = None, pu_notes = None \<rparr>"

section \<open>Tokens (main.py)\<close>

text \<open>
  A token is modelled symbolically: a compact JWS is the payload together with the key
  it was signed with (the signature of an honest token verifies under that key and no
  other), and every other string is \<open>Malformed\<close>.  The payload carries the claims the
  application uses, \<open>sub\<close> and \<open>exp\<close>; \<open>exp\<close> is in whole seconds.
\<close>

record claims =
  c_sub :: "pystr option"
  c_exp :: "int option"

datatype token = JWS pystr claims | Malformed pystr

datatype jwt_error = JWTError | ExpiredSignatureError

definition ACCESS_TOKEN_EXPIRE_MINUTES :: int where
  "ACCESS_TOKEN_EXPIRE_MINUTES = 60 * 24 * 7"

definition minutes :: "int \<Rightarrow> timedelta" where
  "minutes m = m * 60 * 1000000"

text \<open>\<open>timegm(d.utctimetuple())\<close>: the whole seconds of a time, the microseconds dropped.\<close>

definition timegm :: "datetime \<Rightarrow> int" where
  "timegm d = d div 1000000"

text \<open>\<open>jwt.encode\<close> turns a \<open>datetime\<close> under \<open>exp\<close> into its whole seconds and signs.\<close>

definition jwt_encode :: "pystr \<Rightarrow> pystr option \<Rightarrow> datetime \<Rightarrow> token" where
  "jwt_encode key sub expire = JWS key \<lparr> c_sub = sub, c_exp = Some (timegm expire) \<rparr>"

text \<open>
  \<open>jwt.decode\<close>: the signature is checked under the key, then an \<open>exp\<close> claim against
  the clock: the token is expired when \<open>exp\<close> is less than the current whole second.
\<close>

definition jwt_decode :: "pystr \<Rightarrow> datetime \<Rightarrow> token \<Rightarrow> jwt_error + claims" where
  "jwt_decode key now token =
     (case token of
        Malformed _ \<Rightarrow> Inl JWTError
      | JWS k payload \<Rightarrow>
          if k \<noteq> key then Inl JWTError
          else (case c_exp payload of
                  None \<Rightarrow> Inr payload
                | Some exp \<Rightarrow>
                    if exp < timegm now then Inl ExpiredSignatureError else Inr payload))"

text \<open>
  \<open>create_access_token\<close>: \<open>data\<close> is the dictionary \<open>{"sub": ...}\<close>, given by its
  \<open>sub\<close> entry; a \<open>timedelta\<close> that is \<open>None\<close> or zero is false, and the default
  applies.
\<close>

definition create_access_token ::
  "pystr \<Rightarrow> datetime \<Rightarrow> pystr option \<Rightarrow> timedelta option \<Rightarrow> token" where
  "create_access_token SECRET_KEY utcnow data expires_delta =
     (let expire = (if truthy_int expires_delta then utcnow + the expires_delta
                    else utcnow + minutes ACCESS_TOKEN_EXPIRE_MINUTES)
      in jwt_encode SECRET_KEY data expire)"

definition get_current_user ::
  "pystr \<Rightarrow> datetime \<Rightarrow> database \<Rightarrow> token \<Rightarrow> exn + user" where
  "get_current_user SECRET_KEY utcnow db token =
     (case jwt_decode SECRET_KEY utcnow token of
        Inl err \<Rightarrow> Inl (HTTPException 401)
      | Inr payload \<Rightarrow>
          (case c_sub payload of
             None \<Rightarrow> Inl (HTTPException 401)
           | Some username \<Rightarrow>
               (case get_user_by_username db username of
                  None \<Rightarrow> Inl (HTTPException 401)
                | Some user \<Rightarrow> Inr user)))"

section \<open>Routes (main.py)\<close>

definition register ::
  "pwd_handler \<Rightarrow> env \<Rightarrow> database \<Rightarrow> user_create \<Rightarrow> (exn + user) \<times> database" where
  "register H e db user_in =
     (case get_user_by_username db (uc_username user_in) of
        Some existing \<Rightarrow> (Inl (HTTPException 400), db)
      | None \<Rightarrow> create_user H e db user_in)"

definition login ::
  "pwd_handler \<Rightarrow> pystr \<Rightarrow> env \<Rightarrow> database \<Rightarrow> pystr \<Rightarrow> pystr \<Rightarrow> exn + token" where
  "login H SECRET_KEY e db username password =
     (case authenticate_user H db username password of
        Inl err \<Rightarrow> Inl err
      | Inr None \<Rightarrow> Inl (HTTPException 400)
      | Inr (Some user) \<Rightarrow>
          Inr (create_access_token SECRET_KEY (env_now e) (Some (u_username user)) None))"

text \<open>
  The form of \<open>POST /problems/upload\<close>.  An uploaded file is its name and what
  \<open>file.file.read()\<close> gives: the bytes, or \<open>None\<close> when the read raises.
\<close>

record upload_file =
  uf_filename :: "pystr option"
  uf_content :: "nat list option"

record upload_form =
  f_raw :: "pystr option"
  f_file :: "upload_file option"
  f_source_type :: pystr
  f_subject :: "pystr option"
  f_course :: "pystr option"
  f_problem_type :: "pystr option"
  f_knowledge_tags :: "pystr option"
  f_difficulty :: "int option"
  f_tags :: "pystr option"
  f_notes :: "pystr option"

definition b64_char :: "nat \<Rightarrow> nat" where
  "b64_char i =
     (if i < 26 then 65 + i
      else if i < 52 then 71 + i
      else if i < 62 then i - 4
      else if i = 62 then 43
      else 47)"

fun b64encode :: "nat list \<Rightarrow> pystr" where
  "b64encode [] = []"
| "b64encode [a] = [b64_char (a div 4), b64_char (a mod 4 * 16), 61, 61]"
| "b64encode [a, b] =
     [b64_char (a div 4), b64_char (a mod 4 * 16 + b div 16), b64_char (b mod 16 * 4), 61]"
| "b64encode (a # b # c # rest) =
     [b64_char (a div 4), b64_char (a mod 4 * 16 + b div 16),
      b64_char (b mod 16 * 4 + c div 64), b64_char (c mod 64)] @ b64encode rest"

text \<open>\<open>f"FILE:{file.filename}"\<close>; a missing name is printed as \<open>None\<close>.\<close>

definition file_marker :: "pystr option \<Rightarrow> pystr" where
  "file_marker filename =
     ascii ''FILE:'' @ (case filename of None \<Rightarrow> ascii ''None'' | Some name \<Rightarrow> name)"

text \<open>
  A tag field of the form: a false value (absent or empty) is not parsed and gives
  \<open>None\<close>; otherwise \<open>json.loads\<close>, whose \<open>JSONDecodeError\<close> becomes HTTP 400.
\<close>

definition load_tag_field :: "pystr option \<Rightarrow> exn + json" where
  "load_tag_field field =
     (if truthy field then
        (case json_loads (the field) of
           None \<Rightarrow> Inl (HTTPException 400)
         | Some j \<Rightarrow> Inr j)
      else Inr JNull)"

definition upload_problem ::
  "env \<Rightarrow> database \<Rightarrow> user \<Rightarrow> upload_form \<Rightarrow> (exn + problem_out) \<times> database" where
  "upload_problem e db current_user form =
     (if \<not> truthy (f_raw form) \<and> f_file form = None then (Inl (HTTPException 400), db)
      else
        case (case f_file form of
                Some file \<Rightarrow>
                  (case uf_content file of
                     None \<Rightarrow> Inl (HTTPException 400)
                   | Some file_bytes \<Rightarrow>
                       Inr (file_marker (uf_filename file), Some (b64encode file_bytes)))
              | None \<Rightarrow> Inr (the (f_raw form), None)) of
          Inl err \<Rightarrow> (Inl err, db)
        | Inr (raw_store, file_content_base64) \<Rightarrow>
            (case load_tag_field (f_knowledge_tags form) of
               Inl err \<Rightarrow> (Inl err, db)
             | Inr knowledge_tags_list \<Rightarrow>
                 (case load_tag_field (f_tags form) of
                    Inl err \<Rightarrow> (Inl err, db)
                  | Inr tags_list \<Rightarrow>
                      (case validate_str_list knowledge_tags_list of
                         Inl err \<Rightarrow> (Inl err, db)
                       | Inr knowledge_tags \<Rightarrow>
                           (case validate_str_list tags_list of
                              Inl err \<Rightarrow> (Inl err, db)
                            | Inr tags \<Rightarrow>
                                (let problem_in =
                                       \<lparr> pc_source_type = f_source_type form,
                                         pc_raw = raw_store,
                                         pc_file_content = file_content_base64,
                                         pc_subject = f_subject form,
                                         pc_course = f_course form,
                                         pc_problem_type = f_problem_type form,
                                         pc_knowledge_tags = knowledge_tags,
                                         pc_difficulty = f_difficulty form,
                                         pc_tags = tags,
                                         pc_notes = f_notes form \<rparr>;
                                     (p, db') = create_problem e db (u_id current_user) problem_in
                                 in (ProblemOut_from_orm p, db')))))))"

text \<open>\<open>GET /problems/{problem_id}\<close>.  The owner test is \<open>p.owner_id and p.owner_id != current_user.id\<close>.\<close>

definition route_get_problem :: "database \<Rightarrow> user \<Rightarrow> int \<Rightarrow> exn + problem_out" where
  "route_get_problem db current_user problem_id =
     (case get_problem db problem_id of
        None \<Rightarrow> Inl (HTTPException 404)
      | Some p \<Rightarrow>
          if truthy_int (p_owner_id p) \<and> p_owner_id p \<noteq> Some (u_id current_user)
          then Inl (HTTPException 403)
          else ProblemOut_from_orm p)"

text \<open>\<open>PATCH /problems/{problem_id}\<close>.  The owner test is \<open>p.owner_id != current_user.id\<close>.\<close>

definition route_update_problem ::
  "env \<Rightarrow> database \<Rightarrow> user \<Rightarrow> int \<Rightarrow> problem_update \<Rightarrow> (exn + problem_out) \<times> database" where
  "route_update_problem e db current_user problem_id problem_in =
     (case get_problem db problem_id of
        None \<Rightarrow> (Inl (HTTPException 404), db)
      | Some p \<Rightarrow>
          if p_owner_id p \<noteq> Some (u_id current_user) then (Inl (HTTPException 403), db)
          else (case update_problem e db problem_id problem_in of
                  (None, db') \<Rightarrow> (Inl ValidationError, db')
                | (Some p', db') \<Rightarrow> (ProblemOut_from_orm p', db')))"

text \<open>
  What the upload route looks at in a form: whether there is content, whether the file
  can be read, and for a tag field whether it is a text that \<open>json.loads\<close> rejects
  (\<open>malformed_json\<close>) or a value the request model accepts (\<open>tag_field_ok\<close>: not given,
  empty, JSON \<open>null\<close>, or an array of strings).
\<close>

definition missing_content :: "upload_form \<Rightarrow> bool" where
  "missing_content form = (\<not> truthy (f_raw form) \<and> f_file form = None)"

definition unreadable_file :: "upload_form \<Rightarrow> bool" where
  "unreadable_file form =
     (case f_file form of None \<Rightarrow> False | Some file \<Rightarrow> uf_content file = None)"

definition malformed_json :: "pystr option \<Rightarrow> bool" where
  "malformed_json field = (truthy field \<and> json_loads (the field) = None)"

definition tag_field_ok :: "pystr option \<Rightarrow> bool" where
  "tag_field_ok field =
     (\<not> truthy field \<or>
      (case json_loads (the field) of
         Some JNull \<Rightarrow> True
       | Some (JArr vs) \<Rightarrow> list_all (\<lambda>x. as_str x \<noteq> None) vs
       | _ \<Rightarrow> False))"

text \<open>The store with the active flag of every user set by \<open>f\<close>.\<close>

definition with_active_flags :: "(user \<Rightarrow> bool) \<Rightarrow> database \<Rightarrow> database" where
  "with_active_flags f db = db\<lparr>users := map (\<lambda>u. u\<lparr>u_is_active := f u\<rparr>) (users db)\<rparr>"

section \<open>Concrete values for the runs below\<close>

definition alice :: user where
  "alice = \<lparr> u_id = 1, u_uuid = ascii ''uuid-1'', u_username = ascii ''alice'',
             u_hashed_password = ascii ''$pbkdf2-sha256$29000$c2FsdDE$aGFzaDE'',
             u_nickname = None, u_is_active = True, u_is_admin = False, u_created_at = 0 \<rparr>"

definition db_alice :: database where
  "db_alice = \<lparr> users = [alice], problems = [] \<rparr>"

definition env1 :: env where
  "env1 = \<lparr> env_now = 1000000, env_uuid4 = ascii ''uuid-2'', env_salt = [] \<rparr>"

definition alice_again :: user_create where
  "alice_again = \<lparr> uc_username = ascii ''alice'', uc_password = ascii ''other'',
                   uc_nickname = None \<rparr>"

definition no_tags :: problem_create where
  "no_tags = \<lparr> pc_source_type = ascii ''text'', pc_raw = ascii ''2+2=?'',
               pc_file_content = None, pc_subject = None, pc_course = None,
               pc_problem_type = None, pc_knowledge_tags = Some [], pc_difficulty = None,
               pc_tags = None, pc_notes = None \<rparr>"

definition two_tags :: problem_create where
  "two_tags = no_tags \<lparr> pc_knowledge_tags := Some [ascii ''algebra'', [20989, 25968, 10, 128512]],
                        pc_tags := Some [ascii ''say \"hi\"''] \<rparr>"


text \<open>A tag that is a high surrogate followed by a low surrogate.\<close>

definition pair_tags :: problem_create where
  "pair_tags = no_tags \<lparr> pc_knowledge_tags := Some [[55357, 56832]] \<rparr>"
definition bob :: user where
  "bob = \<lparr> u_id = 2, u_uuid = ascii ''uuid-2'', u_username = ascii ''bob'',
           u_hashed_password = ascii ''$pbkdf2-sha256$29000$c2FsdDI$aGFzaDI'',
           u_nickname = None, u_is_active = False, u_is_admin = False, u_created_at = 5 \<rparr>"

definition problem1 :: problem where
  "problem1 = \<lparr> p_id = 1, p_owner_id = Some 1, p_source_type = ascii ''text'',
                p_raw = Some (ascii ''2+2=?''), p_file_content = None, p_parsed = None,
                p_subject = Some (ascii ''math''), p_course = None, p_problem_type = None,
                p_knowledge_tags = None, p_difficulty = Some 2, p_is_bookmarked = True,
                p_tags = Some (ascii ''not json''), p_notes = None,
                p_created_at = 10, p_updated_at = 20 \<rparr>"

definition problem2 :: problem where
  "problem2 = problem1 \<lparr> p_id := 2, p_owner_id := None \<rparr>"

definition db2 :: database where
  "db2 = \<lparr> users = [alice, bob], problems = [problem1, problem2] \<rparr>"

definition subject_only :: problem_update where
  "subject_only = \<lparr> pu_subject = Some (ascii ''X''), pu_course = None, pu_problem_type = None,
                    pu_knowledge_tags = None, pu_difficulty = None, pu_is_bookmarked = None,
                    pu_tags = None, pu_notes = None \<rparr>"


text \<open>A row whose \<open>knowledge_tags\<close> column holds JSON text that is not an array.\<close>

definition problem42 :: problem where
  "problem42 = problem1 \<lparr> p_knowledge_tags := Some (ascii ''42'') \<rparr>"

definition db42 :: database where
  "db42 = \<lparr> users = [alice, bob], problems = [problem42] \<rparr>"

text \<open>A user whose stored hash is of another scheme than the one configured.\<close>

definition carol :: user where
  "carol = \<lparr> u_id = 3, u_uuid = ascii ''uuid-3'', u_username = ascii ''carol'',
             u_hashed_password = ascii ''$2b$12$abcdefghijklmnopqrstuv'',
             u_nickname = None, u_is_active = True, u_is_admin = False, u_created_at = 7 \<rparr>"

definition db_carol :: database where
  "db_carol = \<lparr> users = [alice, carol], problems = [] \<rparr>"
definition text_form :: upload_form where
  "text_form = \<lparr> f_raw = Some (ascii ''2+2=?''), f_file = None, f_source_type = ascii ''text'',
                 f_subject = None, f_course = None, f_problem_type = None,
                 f_knowledge_tags = None, f_difficulty = None, f_tags = None,
                 f_notes = None \<rparr>"

definition null_tags_form :: upload_form where
  "null_tags_form = text_form \<lparr> f_knowledge_tags := Some (ascii ''null'') \<rparr>"

definition number_tags_form :: upload_form where
  "number_tags_form = text_form \<lparr> f_knowledge_tags := Some (ascii ''42'') \<rparr>"

definition bad_tags_form :: upload_form where
  "bad_tags_form = text_form \<lparr> f_knowledge_tags := Some (ascii ''not json'') \<rparr>"

definition empty_raw_form :: upload_form where
  "empty_raw_form = text_form \<lparr> f_raw := Some [] \<rparr>"

definition empty_tags_form :: upload_form where
  "empty_tags_form = text_form \<lparr> f_knowledge_tags := Some [], f_tags := Some [] \<rparr>"

definition SECRET_KEY_default :: pystr where
  "SECRET_KEY_default = ascii ''dev-secret-change-me''"

section \<open>Decoding what \<open>json.dumps\<close> wrote\<close>

lemma hexval_hexdigit: "d < 16 \<Longrightarrow> hexval (hexdigit d) = Some d"
  by (simp add: hexval_def hexdigit_def)

lemma hex4_value:
  fixes n :: nat
  assumes "n < 65536"
  shows "hex_number (n div 4096 mod 16) (n div 256 mod 16) (n div 16 mod 16) (n mod 16) = n"
proof -
  have a: "n div 256 = n div 16 div 16" "n div 4096 = n div 16 div 16 div 16"
    by (simp_all add: div_mult2_eq [symmetric])
  have b: "n div 16 div 16 div 16 < 16" using assms by simp
  have c: "n div 16 div 16 div 16 mod 16 = n div 16 div 16 div 16" using b by simp
  have d: "n div 16 * 16 + n mod 16 = n"
          "n div 16 div 16 * 16 + n div 16 mod 16 = n div 16"
          "n div 16 div 16 div 16 * 16 + n div 16 div 16 mod 16 = n div 16 div 16"
    by simp_all
  show ?thesis unfolding hex_number_def a c by (simp only: d)
qed

lemma decode_hex4:
  assumes "n < 65536"
  shows "decode_uXXXX (hex4 n @ rest) = Some n"
proof -
  have "decode_uXXXX (hex4 n @ rest)
          = Some (hex_number (n div 4096 mod 16) (n div 256 mod 16) (n div 16 mod 16) (n mod 16))"
    by (simp add: decode_uXXXX_def hex4_def hexval_hexdigit)
  also have "\<dots> = Some n"
    by (simp only: hex4_value [OF assms])
  finally show ?thesis .
qed

lemma length_hex4 [simp]: "length (hex4 n) = 4"
  by (simp add: hex4_def)

lemma scan_plain:
  "32 \<le> c \<Longrightarrow> c \<noteq> 34 \<Longrightarrow> c \<noteq> 92 \<Longrightarrow> scanstring (c # rest) = emit c (scanstring rest)"
  by simp

lemma scan_u_bmp:
  assumes "n < 65536" "\<not> (55296 \<le> n \<and> n \<le> 56319)"
  shows "scanstring (u_escape n @ rest) = emit n (scanstring rest)"
proof -
  have dec: "decode_uXXXX (hex4 n @ rest) = Some n" using assms(1) by (rule decode_hex4)
  from assms(2) consider "n < 55296" | "56319 < n" by linarith
  then show ?thesis
    by cases (simp_all add: u_escape_def dec)
qed

lemma surrogate_join:
  fixes c :: nat
  assumes "65536 \<le> c" "c < 1114112"
  shows "65536 + ((55296 + (c - 65536) div 1024 mod 1024 - 55296) * 1024
                  + (56320 + (c - 65536) mod 1024 - 56320)) = c"
proof -
  define m where "m = c - 65536"
  have "m < 1024 * 1024" using assms by (simp add: m_def)
  then have "m div 1024 < 1024" by (simp add: less_mult_imp_div_less)
  then have "m div 1024 mod 1024 * 1024 + m mod 1024 = m" by simp
  moreover have "65536 + m = c" using assms by (simp add: m_def)
  ultimately show ?thesis unfolding m_def [symmetric] by simp
qed

lemma scan_u_surrogates:
  assumes "hi < 65536" "55296 \<le> hi" "hi \<le> 56319"
    and "lo < 65536" "56320 \<le> lo" "lo \<le> 57343"
  shows "scanstring (u_escape hi @ u_escape lo @ rest)
         = emit (65536 + ((hi - 55296) * 1024 + (lo - 56320))) (scanstring rest)"
proof -
  have d1: "decode_uXXXX (hex4 hi @ 92 # 117 # hex4 lo @ rest) = Some hi"
    using decode_hex4 [OF assms(1)] by simp
  have d2: "decode_uXXXX (hex4 lo @ rest) = Some lo"
    using decode_hex4 [OF assms(4)] by simp
  show ?thesis
    using assms(2,3,5,6) by (simp add: u_escape_def d1 d2)
qed

lemma scan_u_pair:
  assumes "65536 \<le> c" "c < 1114112"
  shows "scanstring (u_escape (55296 + (c - 65536) div 1024 mod 1024)
                     @ u_escape (56320 + (c - 65536) mod 1024) @ rest)
         = emit c (scanstring rest)"
proof -
  let ?hi = "55296 + (c - 65536) div 1024 mod 1024"
  let ?lo = "56320 + (c - 65536) mod 1024"
  have hi: "?hi < 65536" "55296 \<le> ?hi" "?hi \<le> 56319" by simp_all
  have lo: "?lo < 65536" "56320 \<le> ?lo" "?lo \<le> 57343" by simp_all
  show ?thesis
    by (simp only: scan_u_surrogates [OF hi lo] surrogate_join [OF assms])
qed

lemma escape_char_high: "is_high c \<Longrightarrow> escape_char c = u_escape c"
  by (simp add: escape_char_def is_high_def)

lemma escape_char_low: "is_low c \<Longrightarrow> escape_char c = u_escape c"
  by (simp add: escape_char_def is_low_def)

text \<open>
  A character that is not a high surrogate is read back from its escape whatever
  follows it.
\<close>

lemma scan_escape_char:
  assumes "\<not> is_high c"
  shows "\<exists>ch. (\<forall>rest. scanstring (escape_char c @ rest) = emit ch (scanstring rest))
              \<and> (c < 1114112 \<longrightarrow> ch = c)"
proof -
  consider (short) "c = 34 \<or> c = 92 \<or> c = 8 \<or> c = 12 \<or> c = 10 \<or> c = 13 \<or> c = 9"
    | (plain) "32 \<le> c" "c \<le> 126" "c \<noteq> 34" "c \<noteq> 92"
    | (bmp) "c < 65536" "\<not> (32 \<le> c \<and> c \<le> 126)" "c \<noteq> 8" "c \<noteq> 12" "c \<noteq> 10" "c \<noteq> 13" "c \<noteq> 9"
    | (astral) "65536 \<le> c"
    by linarith
  then show ?thesis
  proof cases
    case short
    then have "\<forall>rest. scanstring (escape_char c @ rest) = emit c (scanstring rest)"
      by (auto simp: escape_char_def backslash_def)
    then show ?thesis by blast
  next
    case plain
    then have "\<forall>rest. scanstring (escape_char c @ rest) = emit c (scanstring rest)"
      by (simp add: escape_char_def)
    then show ?thesis by blast
  next
    case bmp
    moreover have "\<not> (55296 \<le> c \<and> c \<le> 56319)" using assms by (simp add: is_high_def)
    ultimately have "\<forall>rest. scanstring (escape_char c @ rest) = emit c (scanstring rest)"
      using scan_u_bmp [of c] by (auto simp: escape_char_def)
    then show ?thesis by blast
  next
    case astral
    let ?hi = "55296 + (c - 65536) div 1024 mod 1024"
    let ?lo = "56320 + (c - 65536) mod 1024"
    let ?ch = "65536 + ((?hi - 55296) * 1024 + (?lo - 56320))"
    have hi: "?hi < 65536" "55296 \<le> ?hi" "?hi \<le> 56319" by simp_all
    have lo: "?lo < 65536" "56320 \<le> ?lo" "?lo \<le> 57343" by simp_all
    have esc: "escape_char c = u_escape ?hi @ u_escape ?lo"
      using astral by (simp add: escape_char_def)
    have "\<forall>rest. scanstring (escape_char c @ rest) = emit ?ch (scanstring rest)"
      by (simp only: esc append_assoc scan_u_surrogates [OF hi lo]) simp
    moreover have "c < 1114112 \<longrightarrow> ?ch = c"
      using surrogate_join [OF astral] by blast
    ultimately show ?thesis by blast
  qed
qed

text \<open>
  A high surrogate is read back alone when what follows its escape is not the escape of
  a low surrogate.
\<close>

lemma scan_high_alone:
  assumes "is_high hi"
    and "take 2 R = [92, 117] \<Longrightarrow> \<exists>uni2. decode_uXXXX (drop 2 R) = Some uni2 \<and> \<not> is_low uni2"
  shows "scanstring (u_escape hi @ R) = emit hi (scanstring R)"
proof -
  have lt: "hi < 65536" using assms(1) by (simp add: is_high_def)
  have d1: "decode_uXXXX (hex4 hi @ R) = Some hi" using lt by (rule decode_hex4)
  show ?thesis
  proof (cases "take 2 R = [92, 117]")
    case False
    then show ?thesis by (simp add: u_escape_def d1)
  next
    case True
    from assms(2) [OF True] obtain uni2 where
      u: "decode_uXXXX (drop 2 R) = Some uni2" "\<not> is_low uni2" by blast
    then consider "uni2 < 56320" | "57343 < uni2" by (auto simp: is_low_def)
    then show ?thesis
      using True u(1) by cases (simp_all add: u_escape_def d1)
  qed
qed

lemma escape_after_high:
  assumes "\<not> is_low b" and "take 2 (escape_char b @ R) = [92, 117]"
  shows "\<exists>uni2. decode_uXXXX (drop 2 (escape_char b @ R)) = Some uni2 \<and> \<not> is_low uni2"
proof -
  consider (short) "b = 34 \<or> b = 92 \<or> b = 8 \<or> b = 12 \<or> b = 10 \<or> b = 13 \<or> b = 9"
    | (plain) "32 \<le> b" "b \<le> 126" "b \<noteq> 34" "b \<noteq> 92"
    | (bmp) "b < 65536" "\<not> (32 \<le> b \<and> b \<le> 126)" "b \<noteq> 8" "b \<noteq> 12" "b \<noteq> 10" "b \<noteq> 13" "b \<noteq> 9"
    | (astral) "65536 \<le> b"
    by linarith
  then show ?thesis
  proof cases
    case short
    then have "take 2 (escape_char b @ R) \<noteq> [92, 117]"
      by (elim disjE) (simp_all add: escape_char_def)
    with assms(2) show ?thesis by blast
  next
    case plain
    with assms(2) show ?thesis by (simp add: escape_char_def)
  next
    case bmp
    then have "escape_char b = u_escape b" by (auto simp: escape_char_def)
    then have "decode_uXXXX (drop 2 (escape_char b @ R)) = Some b"
      using decode_hex4 [OF bmp(1), of R] by (simp add: u_escape_def)
    with assms(1) show ?thesis by blast
  next
    case astral
    let ?hi = "55296 + (b - 65536) div 1024 mod 1024"
    let ?lo = "56320 + (b - 65536) mod 1024"
    have hi: "?hi < 65536" by simp
    have "escape_char b = u_escape ?hi @ u_escape ?lo"
      using astral by (simp add: escape_char_def)
    then have "decode_uXXXX (drop 2 (escape_char b @ R)) = Some ?hi"
      using decode_hex4 [OF hi, of "u_escape ?lo @ R"] by (simp add: u_escape_def)
    moreover have "\<not> is_low ?hi" by (simp add: is_low_def)
    ultimately show ?thesis by blast
  qed
qed

text \<open>
  The body of an encoded string is read back up to its closing quote, whatever the
  string; a string of code points below 0x110000 is read back with its surrogate pairs
  joined.
\<close>

lemma scan_escaped:
  "\<exists>out. scanstring (concat (map escape_char s) @ 34 # rest) = Some (out, rest)
          \<and> (is_str s \<longrightarrow> out = join_surrogates s)"
proof (induction s rule: join_surrogates.induct)
  case (1 a b s)
  let ?tail = "concat (map escape_char s) @ 34 # rest"
  show ?case
  proof (cases "is_high a")
    case False
    then have IH: "\<exists>out. scanstring (escape_char b @ ?tail) = Some (out, rest)
                     \<and> (is_str (b # s) \<longrightarrow> out = join_surrogates (b # s))"
      using "1.IH"(2) by simp
    then obtain out where out: "scanstring (escape_char b @ ?tail) = Some (out, rest)"
      "is_str (b # s) \<longrightarrow> out = join_surrogates (b # s)" by blast
    from scan_escape_char [OF False] obtain ch where
      ch: "\<forall>r. scanstring (escape_char a @ r) = emit ch (scanstring r)"
      "a < 1114112 \<longrightarrow> ch = a" by blast
    have "scanstring (concat (map escape_char (a # b # s)) @ 34 # rest) = Some (ch # out, rest)"
      using ch(1) out(1) by (simp add: emit_def)
    moreover have "is_str (a # b # s) \<longrightarrow> ch # out = join_surrogates (a # b # s)"
      using ch(2) out(2) False by (simp add: is_str_def)
    ultimately show ?thesis by blast
  next
    case high: True
    show ?thesis
    proof (cases "is_low b")
      case True
      then obtain out where out: "scanstring ?tail = Some (out, rest)"
        "is_str s \<longrightarrow> out = join_surrogates s"
        using "1.IH"(1) high by blast
      have bounds: "a < 65536" "55296 \<le> a" "a \<le> 56319" "b < 65536" "56320 \<le> b" "b \<le> 57343"
        using high True by (simp_all add: is_high_def is_low_def)
      have "scanstring (u_escape a @ u_escape b @ ?tail)
              = emit (65536 + ((a - 55296) * 1024 + (b - 56320))) (scanstring ?tail)"
        using bounds by (rule scan_u_surrogates)
      then have "scanstring (concat (map escape_char (a # b # s)) @ 34 # rest)
                   = Some ((65536 + ((a - 55296) * 1024 + (b - 56320))) # out, rest)"
        using out(1) by (simp add: escape_char_high [OF high] escape_char_low [OF True] emit_def)
      moreover have "is_str (a # b # s)
                       \<longrightarrow> (65536 + ((a - 55296) * 1024 + (b - 56320))) # out
                             = join_surrogates (a # b # s)"
        using out(2) high True by (simp add: is_str_def)
      ultimately show ?thesis by blast
    next
      case False
      then obtain out where out: "scanstring (escape_char b @ ?tail) = Some (out, rest)"
        "is_str (b # s) \<longrightarrow> out = join_surrogates (b # s)"
        using "1.IH"(2) by auto
      have "scanstring (u_escape a @ escape_char b @ ?tail)
              = emit a (scanstring (escape_char b @ ?tail))"
        using high escape_after_high [OF False] by (rule scan_high_alone)
      then have "scanstring (concat (map escape_char (a # b # s)) @ 34 # rest)
                   = Some (a # out, rest)"
        using out(1) by (simp add: escape_char_high [OF high] emit_def)
      moreover have "is_str (a # b # s) \<longrightarrow> a # out = join_surrogates (a # b # s)"
        using out(2) False by (simp add: is_str_def)
      ultimately show ?thesis by blast
    qed
  qed
next
  case (2 v)
  show ?case
  proof (cases "is_high v")
    case False
    from scan_escape_char [OF False] obtain ch where
      ch: "\<forall>r. scanstring (escape_char v @ r) = emit ch (scanstring r)"
      "v < 1114112 \<longrightarrow> ch = v" by blast
    have "scanstring (concat (map escape_char [v]) @ 34 # rest) = Some ([ch], rest)"
      using ch(1) by (simp add: emit_def)
    moreover have "is_str [v] \<longrightarrow> [ch] = join_surrogates [v]"
      using ch(2) by (simp add: is_str_def)
    ultimately show ?thesis by blast
  next
    case True
    have "scanstring (u_escape v @ 34 # rest) = emit v (scanstring (34 # rest))"
      using True by (rule scan_high_alone) simp
    then show ?thesis
      by (simp add: escape_char_high [OF True] emit_def)
  qed
next
  case 3
  show ?case by simp
qed

lemma join_surrogates_id: "no_surrogate_pair s \<Longrightarrow> join_surrogates s = s"
  by (induction s rule: join_surrogates.induct) auto

lemma map_join_surrogates_id:
  "list_all no_surrogate_pair xs \<Longrightarrow> map join_surrogates xs = xs"
  by (induction xs) (simp_all add: join_surrogates_id)

lemma scan_once_string:
  "\<exists>out. scan_once (Suc n) (encode_basestring_ascii s @ rest) = Some (JStr out, rest)
          \<and> (is_str s \<longrightarrow> out = join_surrogates s)"
proof -
  from scan_escaped [of s rest] obtain out where
    "scanstring (concat (map escape_char s) @ 34 # rest) = Some (out, rest)"
    "is_str s \<longrightarrow> out = join_surrogates s" by blast
  then have "scan_once (Suc n) (encode_basestring_ascii s @ rest) = Some (JStr out, rest)
               \<and> (is_str s \<longrightarrow> out = join_surrogates s)"
    by (simp add: encode_basestring_ascii_def)
  then show ?thesis by blast
qed

lemma skip_ws_quote [simp]: "skip_ws (encode_basestring_ascii s @ rest) = encode_basestring_ascii s @ rest"
  by (simp add: skip_ws_def encode_basestring_ascii_def is_ws_def)

lemma join_items_Cons:
  "join_items (x # xs) = (if xs = [] then x else x @ [44, 32] @ join_items xs)"
  by (cases xs) simp_all

lemma parse_array_strings:
  "xs \<noteq> [] \<Longrightarrow> length xs < n \<Longrightarrow>
     \<exists>ys. parse_array n (join_items (map encode_basestring_ascii xs) @ 93 # rest)
             = Some (map JStr ys, rest)
          \<and> length ys = length xs
          \<and> (list_all is_str xs \<longrightarrow> ys = map join_surrogates xs)"
proof (induction xs arbitrary: n)
  case Nil
  then show ?case by simp
next
  case (Cons x xs)
  from Cons.prems obtain m where n: "n = Suc (Suc m)" "length xs \<le> m"
    by (cases n; cases "n - 1") auto
  show ?case
  proof (cases "xs = []")
    case True
    from scan_once_string [of "Suc m" x "93 # rest"] obtain out where
      out: "scan_once (Suc (Suc m)) (encode_basestring_ascii x @ 93 # rest)
              = Some (JStr out, 93 # rest)"
      "is_str x \<longrightarrow> out = join_surrogates x" by blast
    have "parse_array n (join_items (map encode_basestring_ascii (x # xs)) @ 93 # rest)
            = Some (map JStr [out], rest)"
      using True n out(1) by (simp add: skip_ws_def is_ws_def del: scan_once.simps)
    moreover have "list_all is_str (x # xs) \<longrightarrow> [out] = map join_surrogates (x # xs)"
      using True out(2) by simp
    ultimately show ?thesis using True by (intro exI [of _ "[out]"]) simp
  next
    case False
    let ?more = "join_items (map encode_basestring_ascii xs) @ 93 # rest"
    from Cons.IH [of "Suc m"] False n obtain ys where
      ys: "parse_array (Suc m) ?more = Some (map JStr ys, rest)"
      "length ys = length xs"
      "list_all is_str xs \<longrightarrow> ys = map join_surrogates xs"
      by auto
    from scan_once_string [of "Suc m" x "44 # 32 # ?more"] obtain out where
      out: "scan_once (Suc (Suc m)) (encode_basestring_ascii x @ 44 # 32 # ?more)
              = Some (JStr out, 44 # 32 # ?more)"
      "is_str x \<longrightarrow> out = join_surrogates x" by blast
    obtain y zs where xs: "xs = y # zs" using False by (cases xs) auto
    have sk: "skip_ws (32 # ?more) = ?more"
      using skip_ws_quote [of y "tl ?more"]
      by (simp add: xs skip_ws_def is_ws_def join_items_Cons encode_basestring_ascii_def)
    have "parse_array n (join_items (map encode_basestring_ascii (x # xs)) @ 93 # rest)
            = Some (map JStr (out # ys), rest)"
      using n False out(1) ys(1) sk
      by (simp add: join_items_Cons skip_ws_def is_ws_def del: scan_once.simps)
    moreover have "list_all is_str (x # xs) \<longrightarrow> out # ys = map join_surrogates (x # xs)"
      using out(2) ys(3) by simp
    ultimately show ?thesis using ys(2) by (intro exI [of _ "out # ys"]) simp
  qed
qed

lemma length_join_items:
  "length xs \<le> length (join_items (map encode_basestring_ascii xs))"
proof (induction xs)
  case Nil
  then show ?case by simp
next
  case (Cons x xs)
  have "1 \<le> length (encode_basestring_ascii x)"
    by (simp add: encode_basestring_ascii_def)
  with Cons show ?case
    by (simp add: join_items_Cons)
qed

lemma join_items_starts_with_quote:
  "xs \<noteq> [] \<Longrightarrow> \<exists>r. join_items (map encode_basestring_ascii xs) = 34 # r"
  by (cases xs) (simp_all add: join_items_Cons encode_basestring_ascii_def)

text \<open>
  \<open>json.loads\<close> reads what \<open>json.dumps\<close> wrote for a list of strings as a list of as
  many strings; when the code points of the strings are below 0x110000, these are the
  strings of the list with their surrogate pairs joined.
\<close>

lemma json_loads_dumps:
  "\<exists>ys. json_loads (json_dumps xs) = Some (JArr (map JStr ys))
        \<and> length ys = length xs
        \<and> (list_all is_str xs \<longrightarrow> ys = map join_surrogates xs)"
proof (cases "xs = []")
  case True
  then have "json_loads (json_dumps xs) = Some (JArr (map JStr []))"
    by (simp add: json_loads_def json_dumps_def skip_ws_def is_ws_def)
  with True show ?thesis by (intro exI [of _ "[]"]) simp
next
  case False
  let ?body = "join_items (map encode_basestring_ascii xs)"
  obtain r where r: "?body = 34 # r"
    using join_items_starts_with_quote [OF False] by blast
  have fuel: "length xs < Suc (Suc (length ?body))"
    using length_join_items [of xs] by simp
  from parse_array_strings [OF False fuel, of "[]"] obtain ys where
    arr: "parse_array (Suc (Suc (length ?body))) (?body @ 93 # []) = Some (map JStr ys, [])"
    and ys: "length ys = length xs" "list_all is_str xs \<longrightarrow> ys = map join_surrogates xs"
    by blast
  have sk: "skip_ws (?body @ [93]) = 34 # r @ [93]"
    by (simp add: r skip_ws_def is_ws_def)
  have "scan_once (Suc (Suc (Suc (length ?body)))) (91 # ?body @ [93]) = Some (JArr (map JStr ys), [])"
    using arr by (simp add: sk del: parse_array.simps) (simp add: r)
  then have "json_loads (json_dumps xs) = Some (JArr (map JStr ys))"
    by (simp add: json_loads_def json_dumps_def skip_ws_def is_ws_def del: scan_once.simps)
  with ys show ?thesis by blast
qed

section \<open>The scanner consumes its input, and its fuel is enough\<close>

lemma skip_ws_length: "length (skip_ws s) \<le> length s"
  by (simp add: skip_ws_def length_dropWhile_le)

lemma emit_Some:
  "emit c res = Some (x, r) \<Longrightarrow> \<exists>y. res = Some (y, r) \<and> x = c # y"
  by (cases res) (auto simp: emit_def)

lemma scanstring_consumes:
  "scanstring s = Some (x, r) \<Longrightarrow> length r < length s"
proof (induction s arbitrary: x r rule: scanstring.induct)
  case 1
  then show ?case by simp
next
  case (2 c cs)
  show ?case
  proof (cases "c = 34")
    case True
    with "2.prems" show ?thesis by simp
  next
    case n34: False
    show ?thesis
    proof (cases "c = 92")
      case False
      with n34 "2.prems" obtain y where "scanstring cs = Some (y, r)" "\<not> c < 32"
        by (auto split: if_splits dest: emit_Some)
      with "2.IH"(5) [OF n34 False] show ?thesis by fastforce
    next
      case True
      with n34 "2.prems" obtain esc r0 where cs: "cs = esc # r0"
        by (cases cs) auto
      show ?thesis
      proof (cases "esc = 117")
        case False
        with True n34 cs "2.prems" obtain ch y where
          "backslash esc = Some ch" "scanstring r0 = Some (y, r)"
          by (auto split: option.splits dest: emit_Some)
        with "2.IH"(1) [OF n34 True cs False] show ?thesis
          using cs by fastforce
      next
        case u: True
        with True n34 cs "2.prems" obtain uni where uni: "decode_uXXXX r0 = Some uni"
          by (auto split: option.splits)
        show ?thesis
        proof (cases "55296 \<le> uni \<and> uni \<le> 56319 \<and> take 2 (drop 4 r0) = [92, 117]")
          case False
          with True n34 cs u uni "2.prems" obtain y where
            "scanstring (drop 4 r0) = Some (y, r)"
            by (auto dest: emit_Some)
          with "2.IH"(4) [OF n34 True cs _ uni False] u
          have "length r < length (drop 4 r0)" by blast
          then show ?thesis using cs by simp
        next
          case pair: True
          with True n34 cs u uni "2.prems" obtain uni2 where
            uni2: "decode_uXXXX (drop 6 r0) = Some uni2"
            by (auto split: option.splits)
          show ?thesis
          proof (cases "56320 \<le> uni2 \<and> uni2 \<le> 57343")
            case low: True
            with True n34 cs u uni pair uni2 "2.prems" obtain y where
              "scanstring (drop 10 r0) = Some (y, r)"
              by (auto dest: emit_Some)
            with "2.IH"(2) [OF n34 True cs _ uni pair uni2 low] u
            have "length r < length (drop 10 r0)" by blast
            then show ?thesis using cs by simp
          next
            case False
            with True n34 cs u uni pair uni2 "2.prems" obtain y where
              "scanstring (drop 4 r0) = Some (y, r)"
              by (auto dest: emit_Some)
            with "2.IH"(3) [OF n34 True cs _ uni pair uni2 False] u
            have "length r < length (drop 4 r0)" by blast
            then show ?thesis using cs by simp
          qed
        qed
      qed
    qed
  qed
qed

lemma strip_prefix_consumes:
  "strip_prefix p s = Some r \<Longrightarrow> p \<noteq> [] \<Longrightarrow> length r < length s"
proof -
  assume a: "strip_prefix p s = Some r" and p: "p \<noteq> []"
  then have t: "take (length p) s = p" and r: "r = drop (length p) s"
    by (auto simp: strip_prefix_def split: if_splits)
  from t have "length (take (length p) s) = length p" by simp
  then have "length p \<le> length s" by (simp add: min_def split: if_splits)
  with p r show ?thesis by (cases p) auto
qed

lemma match_frac_length: "match_frac s = (f, r) \<Longrightarrow> length r \<le> length s"
  by (cases s) (auto simp: match_frac_def length_dropWhile_le le_SucI split: if_splits)

lemma match_exp_length: "match_exp s = (x, r) \<Longrightarrow> length r \<le> length s"
proof (cases s)
  case Nil
  then show "match_exp s = (x, r) \<Longrightarrow> length r \<le> length s"
    by (simp add: match_exp_def)
next
  case (Cons c t)
  assume a: "match_exp s = (x, r)"
  show "length r \<le> length s"
  proof (cases "(c = 101 \<or> c = 69)")
    case False
    with a Cons show ?thesis by (simp add: match_exp_def)
  next
    case True
    obtain sign r1 where sr: "(case t of [] \<Rightarrow> ([], t)
                               | g # r' \<Rightarrow> if g = 45 \<or> g = 43 then ([g], r') else ([], t))
                               = (sign, r1)"
      by (cases "(case t of [] \<Rightarrow> ([]::nat list, t)
                   | g # r' \<Rightarrow> if g = 45 \<or> g = 43 then ([g], r') else ([], t))") auto
    then have l1: "length r1 \<le> length t"
      by (cases t) (auto split: if_splits)
    have "length (dropWhile is_digit r1) \<le> length r1" by (rule length_dropWhile_le)
    with l1 a Cons True sr show ?thesis
      by (auto simp: match_exp_def split: if_splits)
  qed
qed

lemma match_integer_consumes:
  "match_integer s = Some (i, r) \<Longrightarrow> length r < length s"
proof -
  have d: "length (dropWhile is_digit t) < Suc (length t)" for t
    using length_dropWhile_le [of is_digit t] by simp
  have d2: "length (dropWhile is_digit t) < Suc (Suc (length t))" for t
    using length_dropWhile_le [of is_digit t] by simp
  assume "match_integer s = Some (i, r)"
  then show ?thesis
    by (auto simp: match_integer_def Let_def d d2 split: list.splits if_splits)
qed

lemma match_number_consumes:
  "match_number s = Some (v, r) \<Longrightarrow> length r < length s"
proof -
  assume a: "match_number s = Some (v, r)"
  then obtain i r0 where i: "match_integer s = Some (i, r0)"
    by (cases "match_integer s") (auto simp: match_number_def)
  obtain f r1 where f: "match_frac r0 = (f, r1)" by (cases "match_frac r0")
  obtain x r2 where x: "match_exp r1 = (x, r2)" by (cases "match_exp r1")
  from a i f x have "r = r2"
    by (auto simp: match_number_def split: if_splits)
  with match_integer_consumes [OF i] match_frac_length [OF f] match_exp_length [OF x]
  show ?thesis by simp
qed

lemma scan_atom_consumes:
  "scan_atom s = Some (v, r) \<Longrightarrow> length r < length s"
  by (auto simp: scan_atom_def ascii_def split: option.splits
        dest: strip_prefix_consumes match_number_consumes)

lemma skip_ws_Cons_length: "skip_ws s = d # r \<Longrightarrow> length r < length s"
  using skip_ws_length [of s] by simp

lemma scan_consumes:
  "(\<forall>v r. scan_once n s = Some (v, r) \<longrightarrow> length r < length s)
   \<and> (\<forall>vs r. parse_array n s = Some (vs, r) \<longrightarrow> length r < length s)
   \<and> (\<forall>ps r. parse_object n s = Some (ps, r) \<longrightarrow> length r < length s)"
proof (induction n arbitrary: s)
  case 0
  show ?case by simp
next
  case (Suc n)
  have once: "length r < length s" if "scan_once (Suc n) s = Some (v, r)" for v r s
  proof (cases s)
    case Nil
    with that show ?thesis by simp
  next
    case (Cons c cs)
    consider (str) "c = 34" | (obj) "c = 123" | (arr) "c = 91"
      | (atom) "c \<noteq> 34" "c \<noteq> 123" "c \<noteq> 91" by blast
    then show ?thesis
    proof cases
      case str
      with that Cons obtain x where "scanstring cs = Some (x, r)"
        by (auto split: option.splits)
      from scanstring_consumes [OF this] Cons show ?thesis by simp
    next
      case obj
      with that Cons obtain d r0 where sk: "skip_ws cs = d # r0"
        by (cases "skip_ws cs") auto
      show ?thesis
      proof (cases "d = 125")
        case True
        with that Cons obj sk have "r = r0" by simp
        with skip_ws_Cons_length [OF sk] Cons show ?thesis by simp
      next
        case False
        with that Cons obj sk obtain ps where "parse_object n (d # r0) = Some (ps, r)"
          by (auto split: option.splits)
        with Suc have "length r < length (d # r0)" by blast
        with skip_ws_length [of cs] sk Cons show ?thesis by simp
      qed
    next
      case arr
      with that Cons obtain d r0 where sk: "skip_ws cs = d # r0"
        by (cases "skip_ws cs") auto
      show ?thesis
      proof (cases "d = 93")
        case True
        with that Cons arr sk have "r = r0" by simp
        with skip_ws_Cons_length [OF sk] Cons show ?thesis by simp
      next
        case False
        with that Cons arr sk obtain vs where "parse_array n (d # r0) = Some (vs, r)"
          by (auto split: option.splits)
        with Suc have "length r < length (d # r0)" by blast
        with skip_ws_length [of cs] sk Cons show ?thesis by simp
      qed
    next
      case atom
      with that Cons have "scan_atom s = Some (v, r)" by simp
      then show ?thesis by (rule scan_atom_consumes)
    qed
  qed
  have arr: "length r < length s" if "parse_array (Suc n) s = Some (vs, r)" for vs r s
  proof -
    from that obtain v r0 where v: "scan_once (Suc n) s = Some (v, r0)"
      by (cases "scan_once (Suc n) s") auto
    from that v obtain d r1 where sk: "skip_ws r0 = d # r1"
      by (cases "skip_ws r0") auto
    have l: "length r1 < length s"
      using once [OF v] skip_ws_Cons_length [OF sk] by simp
    show ?thesis
    proof (cases "d = 93")
      case True
      with that v sk have "r = r1" by simp
      with l show ?thesis by simp
    next
      case False
      with that v sk obtain ws where "parse_array n (skip_ws r1) = Some (ws, r)"
        by (auto split: option.splits if_splits)
      with Suc have "length r < length (skip_ws r1)" by blast
      with skip_ws_length [of r1] l show ?thesis by simp
    qed
  qed
  have obj: "length r < length s" if "parse_object (Suc n) s = Some (ps, r)" for ps r s
  proof -
    from that obtain q s1 where s: "s = q # s1" by (cases s) auto
    from that s have q: "q = 34" by (auto split: if_splits)
    from that s q obtain key r0 where k: "scanstring s1 = Some (key, r0)"
      by (cases "scanstring s1") auto
    from that s q k obtain colon r1 where sk1: "skip_ws r0 = colon # r1"
      by (cases "skip_ws r0") auto
    from that s q k sk1 have colon: "colon = 58" by (auto split: if_splits)
    from that s q k sk1 colon obtain v r2 where
      v: "scan_once (Suc n) (skip_ws r1) = Some (v, r2)"
      by (cases "scan_once (Suc n) (skip_ws r1)") auto
    from that s q k sk1 colon v obtain d r3 where sk3: "skip_ws r2 = d # r3"
      by (cases "skip_ws r2") auto
    have l: "length r3 < length s"
      using scanstring_consumes [OF k] skip_ws_Cons_length [OF sk1] skip_ws_length [of r1]
        once [OF v] skip_ws_Cons_length [OF sk3] s
      by simp
    show ?thesis
    proof (cases "d = 125")
      case True
      with that s q k sk1 colon v sk3 have "r = r3" by simp
      with l show ?thesis by simp
    next
      case False
      with that s q k sk1 colon v sk3 obtain qs where
        "parse_object n (skip_ws r3) = Some (qs, r)"
        by (auto split: option.splits if_splits)
      with Suc have "length r < length (skip_ws r3)" by blast
      with skip_ws_length [of r3] l show ?thesis by simp
    qed
  qed
  from once arr obj show ?case by blast
qed

lemma scan_once_consumes: "scan_once n s = Some (v, r) \<Longrightarrow> length r < length s"
  using scan_consumes by blast

lemma fuel_step:
  "length s < n \<Longrightarrow>
     scan_once (Suc n) s = scan_once n s
     \<and> parse_array (Suc n) s = parse_array n s
     \<and> parse_object (Suc n) s = parse_object n s"
proof (induction n arbitrary: s)
  case 0
  then show ?case by simp
next
  case (Suc n)
  have once: "scan_once (Suc (Suc n)) t = scan_once (Suc n) t" if "length t < Suc n" for t
  proof (cases t)
    case Nil
    then show ?thesis by simp
  next
    case (Cons c cs)
    show ?thesis
    proof (cases "skip_ws cs")
      case Nil
      with Cons show ?thesis by simp
    next
      case sk: (Cons d r0)
      have "length (d # r0) < n"
        using skip_ws_length [of cs] that Cons sk by simp
      then have "parse_array (Suc n) (d # r0) = parse_array n (d # r0)"
        "parse_object (Suc n) (d # r0) = parse_object n (d # r0)"
        using Suc.IH by blast+
      with Cons sk show ?thesis
        by (simp del: parse_array.simps parse_object.simps)
    qed
  qed
  have arr: "parse_array (Suc (Suc n)) t = parse_array (Suc n) t" if "length t < Suc n" for t
  proof (cases "scan_once (Suc n) t")
    case None
    with once [OF that] show ?thesis by (simp del: scan_once.simps)
  next
    case (Some a)
    obtain v r0 where a: "a = (v, r0)" by (cases a)
    have l0: "length r0 < length t"
      using Some a scan_once_consumes by blast
    show ?thesis
    proof (cases "skip_ws r0")
      case Nil
      with Some a once [OF that] show ?thesis by (simp del: scan_once.simps)
    next
      case sk: (Cons d r1)
      have "length (skip_ws r1) < n"
        using skip_ws_length [of r1] skip_ws_Cons_length [OF sk] l0 that by simp
      then have "parse_array (Suc n) (skip_ws r1) = parse_array n (skip_ws r1)"
        using Suc.IH by blast
      with Some a sk once [OF that] show ?thesis
        by (simp del: scan_once.simps)
    qed
  qed
  have obj: "parse_object (Suc (Suc n)) t = parse_object (Suc n) t" if "length t < Suc n" for t
  proof (cases t)
    case Nil
    then show ?thesis by simp
  next
    case (Cons q s1)
    show ?thesis
    proof (cases "scanstring s1")
      case None
      with Cons show ?thesis by (simp del: scan_once.simps)
    next
      case (Some a)
      obtain key r0 where a: "a = (key, r0)" by (cases a)
      have l0: "length r0 < length s1"
        using Some a scanstring_consumes by blast
      show ?thesis
      proof (cases "skip_ws r0")
        case Nil
        with Cons Some a show ?thesis by (simp del: scan_once.simps)
      next
        case sk1: (Cons colon r1)
        have l1: "length (skip_ws r1) < Suc n"
          using skip_ws_length [of r1] skip_ws_Cons_length [OF sk1] l0 that Cons by simp
        note o1 = once [OF l1]
        show ?thesis
        proof (cases "scan_once (Suc n) (skip_ws r1)")
          case None
          with Cons Some a sk1 o1 show ?thesis by (simp del: scan_once.simps)
        next
          case v: (Some b)
          obtain v0 r2 where b: "b = (v0, r2)" by (cases b)
          have l2: "length r2 < length (skip_ws r1)"
            using v b scan_once_consumes by blast
          show ?thesis
          proof (cases "skip_ws r2")
            case Nil
            with Cons Some a sk1 o1 v b show ?thesis by (simp del: scan_once.simps)
          next
            case sk3: (Cons d r3)
            have "length (skip_ws r3) < n"
              using skip_ws_length [of r3] skip_ws_Cons_length [OF sk3] l2 l1 by simp
            then have "parse_object (Suc n) (skip_ws r3) = parse_object n (skip_ws r3)"
              using Suc.IH by blast
            with Cons Some a sk1 o1 v b sk3 show ?thesis
              by (simp del: scan_once.simps)
          qed
        qed
      qed
    qed
  qed
  from once arr obj Suc.prems show ?case by blast
qed

text \<open>
  The fuel \<open>json_loads\<close> starts with is enough: with more fuel than the text has
  characters, further fuel does not change what the scanner returns, so \<open>None\<close> is a
  text the grammar rejects and never fuel that ran out.
\<close>

lemma fuel_adequate:
  "length s < n \<Longrightarrow> scan_once (n + k) s = scan_once n s"
proof (induction k)
  case 0
  then show ?case by simp
next
  case (Suc k)
  then have "length s < n + k" by simp
  from fuel_step [OF this] Suc show ?case by simp
qed

lemma json_loads_any_fuel:
  assumes "length s < n"
  shows "json_loads s
           = (case scan_once n (skip_ws s) of
                None \<Rightarrow> None
              | Some (v, r) \<Rightarrow> if skip_ws r = [] then Some v else None)"
proof -
  have l: "length (skip_ws s) < Suc (length s)"
    using skip_ws_length [of s] by simp
  obtain k where n: "n = Suc (length s) + k"
    using assms by (metis Suc_leI le_Suc_ex)
  have "scan_once n (skip_ws s) = scan_once (Suc (length s)) (skip_ws s)"
    unfolding n by (rule fuel_adequate [OF l])
  then show ?thesis by (simp add: json_loads_def)
qed

text \<open>Three texts: JSON \<open>null\<close>, a JSON number, and a text that is not JSON.\<close>

lemma json_loads_null: "json_loads (ascii ''null'') = Some JNull"
  by (simp add: json_loads_def ascii_def skip_ws_def is_ws_def scan_atom_def strip_prefix_def)

lemma json_loads_42: "json_loads (ascii ''42'') = Some (JInt 42)"
  by (simp add: json_loads_def ascii_def skip_ws_def is_ws_def scan_atom_def strip_prefix_def
        match_number_def match_integer_def match_frac_def match_exp_def is_digit_def
        digits_value_def)

lemma json_loads_not_json: "json_loads (ascii ''not json'') = None"
  by (simp add: json_loads_def ascii_def skip_ws_def is_ws_def scan_atom_def strip_prefix_def
        match_number_def match_integer_def)

section \<open>Registration\<close>

lemma get_user_by_username_present:
  "username \<in> set (map u_username (users db)) \<Longrightarrow>
     \<exists>existing. get_user_by_username db username = Some existing"
  unfolding get_user_by_username_def
  by (cases "find (\<lambda>u. u_username u = username) (users db)") (auto simp: find_None_iff)

text \<open>
  Claim C9.  When the username of a registration request is already in the store,
  \<open>register\<close> fails with HTTP 400 and the store after the failed attempt is the store
  before it: no row is added and the stored row of that username is the same row.
\<close>

theorem register_duplicate_username:
  assumes "uc_username user_in \<in> set (map u_username (users db))"
  shows "fst (register H e db user_in) = Inl (HTTPException 400)
       \<and> snd (register H e db user_in) = db
       \<and> get_user_by_username (snd (register H e db user_in)) (uc_username user_in)
           = get_user_by_username db (uc_username user_in)"
proof -
  from assms obtain existing
    where "get_user_by_username db (uc_username user_in) = Some existing"
    using get_user_by_username_present by blast
  then show ?thesis by (simp add: register_def)
qed

theorem register_duplicate_username_witness:
  "uc_username alice_again \<in> set (map u_username (users db_alice))
   \<and> (\<forall>H. fst (register H env1 db_alice alice_again) = Inl (HTTPException 400)
          \<and> snd (register H env1 db_alice alice_again) = db_alice
          \<and> get_user_by_username (snd (register H env1 db_alice alice_again))
                (uc_username alice_again) = Some alice)"
proof -
  have h: "uc_username alice_again \<in> set (map u_username (users db_alice))"
    by (simp add: alice_again_def db_alice_def alice_def)
  have g: "get_user_by_username db_alice (uc_username alice_again) = Some alice"
    by (simp add: get_user_by_username_def alice_again_def db_alice_def alice_def)
  have "fst (register H env1 db_alice alice_again) = Inl (HTTPException 400)
          \<and> snd (register H env1 db_alice alice_again) = db_alice
          \<and> get_user_by_username (snd (register H env1 db_alice alice_again))
                (uc_username alice_again) = Some alice" for H
    using g register_duplicate_username [OF h, of H env1] by simp
  with h show ?thesis by blast
qed

section \<open>The tag lists of a created problem\<close>

lemma validate_str_list_strings:
  "validate_str_list (JArr (map JStr xs)) = Inr (Some xs)"
proof -
  have "list_all (\<lambda>x. as_str x \<noteq> None) (map JStr xs)"
    by (induction xs) simp_all
  moreover have "map (\<lambda>x. the (as_str x)) (map JStr xs) = xs"
    by (induction xs) simp_all
  ultimately show ?thesis by (simp add: validate_str_list_def)
qed

lemma stored_tags_decode:
  "\<exists>ys. validate_str_list (parse_knowledge_tags (Some (json_dumps xs))) = Inr (Some ys)
        \<and> (list_all is_str xs \<longrightarrow> ys = map join_surrogates xs)"
  "\<exists>ys. validate_str_list (parse_tags (Some (json_dumps xs))) = Inr (Some ys)
        \<and> (list_all is_str xs \<longrightarrow> ys = map join_surrogates xs)"
proof -
  from json_loads_dumps [of xs] obtain ys where
    ys: "json_loads (json_dumps xs) = Some (JArr (map JStr ys))"
    "list_all is_str xs \<longrightarrow> ys = map join_surrogates xs" by blast
  have "validate_str_list (parse_knowledge_tags (Some (json_dumps xs))) = Inr (Some ys)"
    "validate_str_list (parse_tags (Some (json_dumps xs))) = Inr (Some ys)"
    by (simp_all add: parse_knowledge_tags_def parse_tags_def ys(1) validate_str_list_strings)
  with ys(2) show
    "\<exists>ys. validate_str_list (parse_knowledge_tags (Some (json_dumps xs))) = Inr (Some ys)
        \<and> (list_all is_str xs \<longrightarrow> ys = map join_surrogates xs)"
    "\<exists>ys. validate_str_list (parse_tags (Some (json_dumps xs))) = Inr (Some ys)
        \<and> (list_all is_str xs \<longrightarrow> ys = map join_surrogates xs)"
    by blast+
qed

lemma column_round_trip:
  "\<exists>r. validate_str_list
          (parse_knowledge_tags (if truthy v then Some (json_dumps (the v)) else None)) = Inr r
       \<and> (\<not> truthy v \<longrightarrow> r = None)
       \<and> (str_tags v \<longrightarrow> r = read_tags v)"
  "\<exists>r. validate_str_list
          (parse_tags (if truthy v then Some (json_dumps (the v)) else None)) = Inr r
       \<and> (\<not> truthy v \<longrightarrow> r = None)
       \<and> (str_tags v \<longrightarrow> r = read_tags v)"
proof -
  show "\<exists>r. validate_str_list
          (parse_knowledge_tags (if truthy v then Some (json_dumps (the v)) else None)) = Inr r
       \<and> (\<not> truthy v \<longrightarrow> r = None)
       \<and> (str_tags v \<longrightarrow> r = read_tags v)"
  proof (cases "truthy v")
    case False
    then have "read_tags v = None"
      by (cases v) (simp_all add: truthy_def read_tags_def)
    with False show ?thesis
      by (simp add: parse_knowledge_tags_def validate_str_list_def)
  next
    case True
    then obtain xs where v: "v = Some xs" "xs \<noteq> []"
      by (cases v) (simp_all add: truthy_def)
    from stored_tags_decode(1) [of xs] obtain ys where
      "validate_str_list (parse_knowledge_tags (Some (json_dumps xs))) = Inr (Some ys)"
      "list_all is_str xs \<longrightarrow> ys = map join_surrogates xs" by blast
    with True v show ?thesis
      by (simp add: str_tags_def read_tags_def)
  qed
  show "\<exists>r. validate_str_list
          (parse_tags (if truthy v then Some (json_dumps (the v)) else None)) = Inr r
       \<and> (\<not> truthy v \<longrightarrow> r = None)
       \<and> (str_tags v \<longrightarrow> r = read_tags v)"
  proof (cases "truthy v")
    case False
    then have "read_tags v = None"
      by (cases v) (simp_all add: truthy_def read_tags_def)
    with False show ?thesis
      by (simp add: parse_tags_def validate_str_list_def)
  next
    case True
    then obtain xs where v: "v = Some xs" "xs \<noteq> []"
      by (cases v) (simp_all add: truthy_def)
    from stored_tags_decode(2) [of xs] obtain ys where
      "validate_str_list (parse_tags (Some (json_dumps xs))) = Inr (Some ys)"
      "list_all is_str xs \<longrightarrow> ys = map join_surrogates xs" by blast
    with True v show ?thesis
      by (simp add: str_tags_def read_tags_def)
  qed
qed

lemma read_tags_exact: "v \<noteq> Some [] \<Longrightarrow> pair_free v \<Longrightarrow> read_tags v = v"
  by (cases v) (simp_all add: read_tags_def pair_free_def map_join_surrogates_id)

lemma fold_max_ge: "(a::int) \<le> fold max ids a"
proof (induction ids arbitrary: a)
  case Nil
  then show ?case by simp
next
  case (Cons y ys)
  have "a \<le> max y a" by simp
  also have "\<dots> \<le> fold max ys (max y a)" by (rule Cons.IH)
  finally show ?case by simp
qed

lemma fold_max_upper: "x \<in> set ids \<Longrightarrow> (x::int) \<le> fold max ids a"
proof (induction ids arbitrary: a)
  case Nil
  then show ?case by simp
next
  case (Cons y ys)
  show ?case
  proof (cases "x = y")
    case True
    have "y \<le> max y a" by simp
    also have "\<dots> \<le> fold max ys (max y a)" by (rule fold_max_ge)
    finally show ?thesis using True by simp
  next
    case False
    with Cons show ?thesis by simp
  qed
qed

lemma next_id_fresh: "next_id ids \<notin> set ids"
proof
  assume "next_id ids \<in> set ids"
  then have "next_id ids \<le> fold max ids 0" by (rule fold_max_upper)
  then show False by (simp add: next_id_def)
qed

lemma next_id_positive: "0 < next_id ids"
  using fold_max_ge [of 0 ids] by (simp add: next_id_def)

lemma next_id_empty: "next_id [] = 1"
  by (simp add: next_id_def)

lemma find_appended:
  "\<forall>q \<in> set xs. \<not> P q \<Longrightarrow> P p \<Longrightarrow> find P (xs @ [p]) = Some p"
  by (induction xs) simp_all

lemma created_row_tags:
  "p_knowledge_tags (fst (create_problem e db owner pin))
     = (if truthy (pc_knowledge_tags pin) then Some (json_dumps (the (pc_knowledge_tags pin)))
        else None)"
  "p_tags (fst (create_problem e db owner pin))
     = (if truthy (pc_tags pin) then Some (json_dumps (the (pc_tags pin))) else None)"
  "p_owner_id (fst (create_problem e db owner pin)) = Some owner"
  "p_id (fst (create_problem e db owner pin)) = next_id (map p_id (problems db))"
  "problems (snd (create_problem e db owner pin))
     = problems db @ [fst (create_problem e db owner pin)]"
  by (simp_all add: create_problem_def Let_def)

lemma create_problem_store:
  "snd (create_problem e db owner pin)
     = db\<lparr>problems := problems db @ [fst (create_problem e db owner pin)]\<rparr>"
  by (simp add: create_problem_def Let_def)

lemma get_problem_created:
  "get_problem (snd (create_problem e db owner pin)) (p_id (fst (create_problem e db owner pin)))
     = Some (fst (create_problem e db owner pin))"
proof -
  let ?p = "fst (create_problem e db owner pin)"
  have "\<forall>q \<in> set (problems db). \<not> p_id q = p_id ?p"
  proof (intro ballI notI)
    fix q
    assume "q \<in> set (problems db)" and "p_id q = p_id ?p"
    then have "next_id (map p_id (problems db)) \<in> set (map p_id (problems db))"
      by (metis created_row_tags(4) image_eqI set_map)
    then show False using next_id_fresh by blast
  qed
  then have "find (\<lambda>q. p_id q = p_id ?p) (problems db @ [?p]) = Some ?p"
    by (rule find_appended) simp
  then show ?thesis
    by (simp only: get_problem_def created_row_tags(5))
qed

text \<open>
  The response built from a created row: it can always be built; a tag list that was
  false is absent in it; and a tag list is in it as \<open>read_tags\<close> says.
\<close>

lemma from_orm_created:
  "\<exists>out. ProblemOut_from_orm (fst (create_problem e db owner pin)) = Inr out
         \<and> (\<not> truthy (pc_knowledge_tags pin) \<longrightarrow> po_knowledge_tags out = None)
         \<and> (\<not> truthy (pc_tags pin) \<longrightarrow> po_tags out = None)
         \<and> (str_tags (pc_knowledge_tags pin)
              \<longrightarrow> po_knowledge_tags out = read_tags (pc_knowledge_tags pin))
         \<and> (str_tags (pc_tags pin) \<longrightarrow> po_tags out = read_tags (pc_tags pin))"
proof -
  let ?p = "fst (create_problem e db owner pin)"
  from column_round_trip(1) [of "pc_knowledge_tags pin"] obtain k where
    k: "validate_str_list (parse_knowledge_tags (p_knowledge_tags ?p)) = Inr k"
    and k1: "\<not> truthy (pc_knowledge_tags pin) \<longrightarrow> k = None"
    and k2: "str_tags (pc_knowledge_tags pin) \<longrightarrow> k = read_tags (pc_knowledge_tags pin)"
    unfolding created_row_tags(1) by blast
  from column_round_trip(2) [of "pc_tags pin"] obtain t where
    t: "validate_str_list (parse_tags (p_tags ?p)) = Inr t"
    and t1: "\<not> truthy (pc_tags pin) \<longrightarrow> t = None"
    and t2: "str_tags (pc_tags pin) \<longrightarrow> t = read_tags (pc_tags pin)"
    unfolding created_row_tags(2) by blast
  show ?thesis
    unfolding ProblemOut_from_orm_def k t using k1 k2 t1 t2 by simp
qed

text \<open>
  Claim C1, amended.  A problem created with tag lists of strings (values of type
  \<open>str\<close>, whose code points are below 0x110000) is found again under its id, and its
  owner reads it.  The response carries each tag list as \<open>read_tags\<close> gives it: an
  absent list absent, an empty list absent too, and a list that is not empty with its
  strings in the same order, each with its surrogate pairs joined.  So a tag list that
  is absent, or not empty and without a surrogate pair in its strings, is read back
  exactly as it was given.
\<close>

theorem tags_round_trip:
  assumes "str_tags (pc_knowledge_tags pin)" and "str_tags (pc_tags pin)"
    and "u_id current_user = owner"
  shows "\<exists>out. get_problem (snd (create_problem e db owner pin))
                 (p_id (fst (create_problem e db owner pin)))
                = Some (fst (create_problem e db owner pin))
            \<and> route_get_problem (snd (create_problem e db owner pin)) current_user
                 (p_id (fst (create_problem e db owner pin))) = Inr out
            \<and> po_knowledge_tags out = read_tags (pc_knowledge_tags pin)
            \<and> po_tags out = read_tags (pc_tags pin)
            \<and> (pc_knowledge_tags pin \<noteq> Some [] \<and> pair_free (pc_knowledge_tags pin)
                 \<longrightarrow> po_knowledge_tags out = pc_knowledge_tags pin)
            \<and> (pc_tags pin \<noteq> Some [] \<and> pair_free (pc_tags pin)
                 \<longrightarrow> po_tags out = pc_tags pin)"
proof -
  let ?p = "fst (create_problem e db owner pin)"
  let ?db = "snd (create_problem e db owner pin)"
  have found: "get_problem ?db (p_id ?p) = Some ?p" by (rule get_problem_created)
  have route: "route_get_problem ?db current_user (p_id ?p) = ProblemOut_from_orm ?p"
    unfolding route_get_problem_def found using assms(3) by (simp add: created_row_tags(3))
  from from_orm_created [of e db owner pin] assms(1,2) obtain out where
    out: "ProblemOut_from_orm ?p = Inr out"
    "po_knowledge_tags out = read_tags (pc_knowledge_tags pin)"
    "po_tags out = read_tags (pc_tags pin)"
    by blast
  have "pc_knowledge_tags pin \<noteq> Some [] \<and> pair_free (pc_knowledge_tags pin)
          \<longrightarrow> po_knowledge_tags out = pc_knowledge_tags pin"
    using out(2) read_tags_exact by simp
  moreover have "pc_tags pin \<noteq> Some [] \<and> pair_free (pc_tags pin)
          \<longrightarrow> po_tags out = pc_tags pin"
    using out(3) read_tags_exact by simp
  ultimately show ?thesis using found route out by auto
qed

theorem tags_round_trip_witness:
  "str_tags (pc_knowledge_tags two_tags) \<and> str_tags (pc_tags two_tags)
   \<and> u_id alice = 1
   \<and> pc_knowledge_tags two_tags \<noteq> Some [] \<and> pair_free (pc_knowledge_tags two_tags)
   \<and> pc_tags two_tags \<noteq> Some [] \<and> pair_free (pc_tags two_tags)
   \<and> (\<exists>out. route_get_problem (snd (create_problem env1 db_alice 1 two_tags)) alice
               (p_id (fst (create_problem env1 db_alice 1 two_tags))) = Inr out
          \<and> po_knowledge_tags out = Some [ascii ''algebra'', [20989, 25968, 10, 128512]]
          \<and> po_tags out = Some [ascii ''say \"hi\"''])"
proof -
  have k: "pc_knowledge_tags two_tags = Some [ascii ''algebra'', [20989, 25968, 10, 128512]]"
    and t: "pc_tags two_tags = Some [ascii ''say \"hi\"'']"
    by (simp_all add: two_tags_def)
  have h1: "str_tags (pc_knowledge_tags two_tags)"
    and h2: "str_tags (pc_tags two_tags)"
    by (simp_all add: k t str_tags_def is_str_def ascii_def)
  have h3: "u_id alice = 1" by (simp add: alice_def)
  have h4: "pc_knowledge_tags two_tags \<noteq> Some []" "pc_tags two_tags \<noteq> Some []"
    by (simp_all add: k t)
  have h5: "pair_free (pc_knowledge_tags two_tags)" "pair_free (pc_tags two_tags)"
    by (simp_all add: k t pair_free_def is_high_def ascii_def)
  from tags_round_trip [OF h1 h2 h3, of env1 db_alice] h4 h5 obtain out where
    "route_get_problem (snd (create_problem env1 db_alice 1 two_tags)) alice
        (p_id (fst (create_problem env1 db_alice 1 two_tags))) = Inr out"
    "po_knowledge_tags out = pc_knowledge_tags two_tags"
    "po_tags out = pc_tags two_tags"
    by blast
  then have "\<exists>out. route_get_problem (snd (create_problem env1 db_alice 1 two_tags)) alice
               (p_id (fst (create_problem env1 db_alice 1 two_tags))) = Inr out
          \<and> po_knowledge_tags out = Some [ascii ''algebra'', [20989, 25968, 10, 128512]]
          \<and> po_tags out = Some [ascii ''say \"hi\"'']"
    unfolding k t by blast
  with h1 h2 h3 h4 h5 show ?thesis by blast
qed

lemma json_loads_pair:
  "json_loads (json_dumps [[55357, 56832]]) = Some (JArr [JStr [128512]])"
proof -
  have "list_all is_str [[55357, 56832]]" by (simp add: is_str_def)
  with json_loads_dumps [of "[[55357, 56832]]"] show ?thesis
    by (auto simp: is_high_def is_low_def)
qed

text \<open>
  Claim C1 as stated fails for the empty list and for a string with a surrogate pair.
  Created with \<open>knowledge_tags = []\<close>, the problem is read back with \<open>knowledge_tags\<close>
  absent.  Created with the one tag of two code points U+D83D U+DE00, it is read back
  with the one tag of one code point U+1F600.
\<close>

theorem tag_list_read_back_differs:
  "pc_knowledge_tags no_tags = Some []
   \<and> map_sum id po_knowledge_tags
        (route_get_problem (snd (create_problem env1 db_alice 1 no_tags)) alice 1) = Inr None
   \<and> pc_knowledge_tags pair_tags = Some [[55357, 56832]]
   \<and> map_sum id po_knowledge_tags
        (route_get_problem (snd (create_problem env1 db_alice 1 pair_tags)) alice 1)
       = Inr (Some [[128512]])"
proof -
  have a: "map_sum id po_knowledge_tags
        (route_get_problem (snd (create_problem env1 db_alice 1 no_tags)) alice 1) = Inr None"
    by (simp add: no_tags_def create_problem_def route_get_problem_def get_problem_def
          ProblemOut_from_orm_def parse_knowledge_tags_def parse_tags_def validate_str_list_def
          truthy_def truthy_int_def db_alice_def alice_def next_id_empty Let_def)
  have b: "map_sum id po_knowledge_tags
        (route_get_problem (snd (create_problem env1 db_alice 1 pair_tags)) alice 1)
       = Inr (Some [[128512]])"
    by (simp add: pair_tags_def no_tags_def create_problem_def route_get_problem_def
          get_problem_def ProblemOut_from_orm_def parse_knowledge_tags_def parse_tags_def
          validate_str_list_def truthy_def truthy_int_def db_alice_def alice_def next_id_empty
          json_loads_pair Let_def)
  show ?thesis using a b by (simp add: no_tags_def pair_tags_def)
qed

section \<open>Ownership on read and update\<close>

lemma create_user_ids_positive:
  "ids_positive db \<Longrightarrow> ids_positive (snd (create_user H e db user_in))"
  by (simp add: create_user_def ids_positive_def Let_def next_id_positive)

text \<open>
  What the read route does with a stored problem \<open>p\<close> and a caller \<open>c\<close> (a user of a
  store whose keys are positive): when the owner of \<open>p\<close> is another user of the store,
  the read fails with 403; when the owner is \<open>c\<close>, or \<open>p\<close> has no owner, the read is not
  refused, and the answer is what the response model makes of the row.
\<close>

lemma read_ownership:
  assumes "get_problem db problem_id = Some p" and "ids_positive db"
  shows "(p_owner_id p = Some (u_id c) \<or> p_owner_id p = None
            \<longrightarrow> route_get_problem db c problem_id = ProblemOut_from_orm p)
       \<and> (\<forall>owner \<in> set (users db).
            p_owner_id p = Some (u_id owner) \<and> u_id owner \<noteq> u_id c
            \<longrightarrow> route_get_problem db c problem_id = Inl (HTTPException 403))"
proof -
  have pos: "\<forall>owner \<in> set (users db). u_id owner \<noteq> 0"
    using assms(2) by (auto simp: ids_positive_def list_all_iff)
  show ?thesis
    using assms(1) pos
    by (auto simp: route_get_problem_def truthy_int_def)
qed

lemma from_orm_problem42: "ProblemOut_from_orm problem42 = Inl ValidationError"
  by (simp add: ProblemOut_from_orm_def problem42_def problem1_def parse_knowledge_tags_def
        json_loads_42 validate_str_list_def)

text \<open>
  Claim C2 fails on the code: the read of the owner does not always succeed.  The row
  \<open>problem42\<close> is owned by the caller; its column \<open>knowledge_tags\<close> holds the text
  \<open>42\<close>, which is JSON and no array.  The validator of the response model decodes the
  text and catches only the decoding error, so the number reaches the validation of the
  field, and the \<open>ValidationError\<close> raised there is not handled by the route.
\<close>

theorem read_by_owner_raises:
  "get_problem db42 1 = Some problem42
   \<and> p_owner_id problem42 = Some (u_id alice)
   \<and> p_knowledge_tags problem42 = Some (ascii ''42'')
   \<and> route_get_problem db42 alice 1 = Inl ValidationError"
proof -
  have g: "get_problem db42 1 = Some problem42"
    by (simp add: get_problem_def db42_def problem42_def problem1_def)
  have o: "p_owner_id problem42 = Some (u_id alice)"
    "p_knowledge_tags problem42 = Some (ascii ''42'')"
    by (simp_all add: problem42_def problem1_def alice_def)
  have "route_get_problem db42 alice 1 = Inl ValidationError"
    by (simp add: route_get_problem_def g o from_orm_problem42)
  with g o show ?thesis by simp
qed

text \<open>
  Claim C8.  An update by a caller whose id is not the owner of the problem fails with
  403 and leaves the store as it was, also when the problem has no owner; an unknown
  id fails with 404; and an update that succeeds was made by the owner.
\<close>

theorem update_ownership:
  "(get_problem db problem_id = None
      \<longrightarrow> route_update_problem e db c problem_id problem_in = (Inl (HTTPException 404), db))
   \<and> (\<forall>p. get_problem db problem_id = Some p \<and> p_owner_id p \<noteq> Some (u_id c)
      \<longrightarrow> route_update_problem e db c problem_id problem_in = (Inl (HTTPException 403), db))
   \<and> (\<forall>out. fst (route_update_problem e db c problem_id problem_in) = Inr out
      \<longrightarrow> (\<exists>p. get_problem db problem_id = Some p \<and> p_owner_id p = Some (u_id c)))"
  by (cases "get_problem db problem_id")
     (auto simp: route_update_problem_def split: if_splits)

theorem update_ownership_witness:
  "get_problem db2 3 = None
   \<and> route_update_problem env1 db2 alice 3 subject_only = (Inl (HTTPException 404), db2)
   \<and> get_problem db2 2 = Some problem2 \<and> p_owner_id problem2 = None
   \<and> route_update_problem env1 db2 alice 2 subject_only = (Inl (HTTPException 403), db2)
   \<and> route_update_problem env1 db2 bob 1 subject_only = (Inl (HTTPException 403), db2)"
proof -
  have h1: "get_problem db2 3 = None"
    by (simp add: get_problem_def db2_def problem1_def problem2_def)
  have h2: "get_problem db2 2 = Some problem2"
    by (simp add: get_problem_def db2_def problem1_def problem2_def)
  have h3: "get_problem db2 1 = Some problem1"
    by (simp add: get_problem_def db2_def problem1_def)
  have h4: "p_owner_id problem2 = None" "p_owner_id problem2 \<noteq> Some (u_id alice)"
    "p_owner_id problem1 \<noteq> Some (u_id bob)"
    by (simp_all add: problem2_def problem1_def bob_def)
  show ?thesis
    using h1 h2 h3 h4 update_ownership [of db2 3 env1 alice subject_only]
      update_ownership [of db2 2 env1 alice subject_only]
      update_ownership [of db2 1 env1 bob subject_only]
    by blast
qed

section \<open>Partial update\<close>

lemma find_id: "find (\<lambda>p. p_id p = i) ps = Some p \<Longrightarrow> p_id p = i"
  by (induction ps) (auto split: if_splits)

lemma assign_fields_frame:
  "p_id (assign_fields u p) = p_id p"
  "p_owner_id (assign_fields u p) = p_owner_id p"
  "p_source_type (assign_fields u p) = p_source_type p"
  "p_raw (assign_fields u p) = p_raw p"
  "p_file_content (assign_fields u p) = p_file_content p"
  "p_parsed (assign_fields u p) = p_parsed p"
  "p_created_at (assign_fields u p) = p_created_at p"
  "p_updated_at (assign_fields u p) = p_updated_at p"
  by (simp_all add: assign_fields_def Let_def split: option.split)

lemma assign_fields_unset:
  "pu_subject u = None \<Longrightarrow> p_subject (assign_fields u p) = p_subject p"
  "pu_course u = None \<Longrightarrow> p_course (assign_fields u p) = p_course p"
  "pu_problem_type u = None \<Longrightarrow> p_problem_type (assign_fields u p) = p_problem_type p"
  "pu_knowledge_tags u = None \<Longrightarrow> p_knowledge_tags (assign_fields u p) = p_knowledge_tags p"
  "pu_difficulty u = None \<Longrightarrow> p_difficulty (assign_fields u p) = p_difficulty p"
  "pu_is_bookmarked u = None \<Longrightarrow> p_is_bookmarked (assign_fields u p) = p_is_bookmarked p"
  "pu_tags u = None \<Longrightarrow> p_tags (assign_fields u p) = p_tags p"
  "pu_notes u = None \<Longrightarrow> p_notes (assign_fields u p) = p_notes p"
  by (simp_all add: assign_fields_def Let_def split: option.split)

lemma assign_only_subject:
  "assign_fields (only_subject x) p = p\<lparr>p_subject := Some x\<rparr>"
  by (simp add: assign_fields_def only_subject_def)

lemma update_problem_found:
  assumes "get_problem db problem_id = Some p"
  shows "fst (update_problem e db problem_id u)
           = Some (if assign_fields u p = p then p
                   else (assign_fields u p)\<lparr>p_updated_at := env_now e\<rparr>)"
    and "snd (update_problem e db problem_id u)
           = db\<lparr>problems := replace_problem
                               (if assign_fields u p = p then p
                                else (assign_fields u p)\<lparr>p_updated_at := env_now e\<rparr>)
                               (problems db)\<rparr>"
  using assms by (simp_all add: update_problem_def get_problem_def Let_def)

text \<open>The table around the row that a lookup finds, and around the row that replaces it.\<close>

lemma find_split:
  "find P xs = Some x \<Longrightarrow>
     \<exists>before after. xs = before @ x # after \<and> (\<forall>q \<in> set before. \<not> P q) \<and> P x"
proof (induction xs)
  case Nil
  then show ?case by simp
next
  case (Cons y ys)
  show ?case
  proof (cases "P y")
    case True
    with Cons.prems have "y = x" by simp
    with True have "y # ys = [] @ x # ys \<and> (\<forall>q \<in> set []. \<not> P q) \<and> P x" by simp
    then show ?thesis by blast
  next
    case False
    with Cons obtain before after where
      "ys = before @ x # after" "\<forall>q \<in> set before. \<not> P q" "P x" by auto
    with False have "y # ys = (y # before) @ x # after
                       \<and> (\<forall>q \<in> set (y # before). \<not> P q) \<and> P x" by simp
    then show ?thesis by blast
  qed
qed

lemma replace_problem_split:
  "\<forall>q \<in> set before. p_id q \<noteq> p_id p' \<Longrightarrow> p_id p = p_id p' \<Longrightarrow>
     replace_problem p' (before @ p # after) = before @ p' # after"
  by (induction before) simp_all

lemma find_other_id:
  assumes "p_id p = j" "p_id p' = j" "i \<noteq> j"
  shows "find (\<lambda>q. p_id q = i) (before @ p' # after)
           = find (\<lambda>q. p_id q = i) (before @ p # after)"
  using assms by (induction before) simp_all

lemma find_same_id:
  "\<forall>q \<in> set before. p_id q \<noteq> j \<Longrightarrow> p_id p' = j \<Longrightarrow>
     find (\<lambda>q. p_id q = j) (before @ p' # after) = Some p'"
  by (induction before) simp_all

text \<open>
  Claim C5.  An update of a stored problem returns the row with the fields of the
  payload that are set written, and every other field as it was: the id, the owner, the
  source type, the raw content, the file content, the parsed form and the creation time
  always, and each updatable field that is unset in the payload.  With the payload
  \<open>{subject: X}\<close> the returned row is the old row with \<open>subject\<close> set to \<open>X\<close> and, when that
  changed the row, \<open>updated_at\<close> set to the time of the update.  The store after the
  update is the store before it with this one row put in the place of the old one: the
  rows before it and after it in the table are the same, a lookup of the id finds the
  new row, a lookup of another id finds what it found before, and the users are
  untouched.
\<close>

theorem partial_update_frame:
  assumes "get_problem db problem_id = Some p"
  shows "\<exists>p' before after.
             update_problem e db problem_id u
               = (Some p', db\<lparr>problems := before @ p' # after\<rparr>)
           \<and> problems db = before @ p # after
           \<and> (\<forall>q \<in> set before. p_id q \<noteq> problem_id)
           \<and> get_problem (snd (update_problem e db problem_id u)) problem_id = Some p'
           \<and> (\<forall>i. i \<noteq> problem_id \<longrightarrow>
                 get_problem (snd (update_problem e db problem_id u)) i = get_problem db i)
           \<and> p_id p' = p_id p \<and> p_owner_id p' = p_owner_id p
           \<and> p_source_type p' = p_source_type p \<and> p_raw p' = p_raw p
           \<and> p_file_content p' = p_file_content p \<and> p_parsed p' = p_parsed p
           \<and> p_created_at p' = p_created_at p
           \<and> (pu_subject u = None \<longrightarrow> p_subject p' = p_subject p)
           \<and> (pu_course u = None \<longrightarrow> p_course p' = p_course p)
           \<and> (pu_problem_type u = None \<longrightarrow> p_problem_type p' = p_problem_type p)
           \<and> (pu_knowledge_tags u = None \<longrightarrow> p_knowledge_tags p' = p_knowledge_tags p)
           \<and> (pu_difficulty u = None \<longrightarrow> p_difficulty p' = p_difficulty p)
           \<and> (pu_is_bookmarked u = None \<longrightarrow> p_is_bookmarked p' = p_is_bookmarked p)
           \<and> (pu_tags u = None \<longrightarrow> p_tags p' = p_tags p)
           \<and> (pu_notes u = None \<longrightarrow> p_notes p' = p_notes p)
           \<and> (\<forall>x. u = only_subject x \<longrightarrow>
                 p' = p\<lparr>p_subject := Some x,
                        p_updated_at := (if p_subject p = Some x then p_updated_at p
                                         else env_now e)\<rparr>)
           \<and> users (snd (update_problem e db problem_id u)) = users db"
proof -
  let ?q = "assign_fields u p"
  let ?p' = "if ?q = p then p else ?q\<lparr>p_updated_at := env_now e\<rparr>"
  have res: "fst (update_problem e db problem_id u) = Some ?p'"
    and store: "snd (update_problem e db problem_id u)
                  = db\<lparr>problems := replace_problem ?p' (problems db)\<rparr>"
    using update_problem_found [OF assms] by simp_all
  have fixed: "p_id ?p' = p_id p" "p_owner_id ?p' = p_owner_id p"
    "p_source_type ?p' = p_source_type p" "p_raw ?p' = p_raw p"
    "p_file_content ?p' = p_file_content p" "p_parsed ?p' = p_parsed p"
    "p_created_at ?p' = p_created_at p"
    by (simp_all add: assign_fields_frame)
  have unset: "pu_subject u = None \<longrightarrow> p_subject ?p' = p_subject p"
    "pu_course u = None \<longrightarrow> p_course ?p' = p_course p"
    "pu_problem_type u = None \<longrightarrow> p_problem_type ?p' = p_problem_type p"
    "pu_knowledge_tags u = None \<longrightarrow> p_knowledge_tags ?p' = p_knowledge_tags p"
    "pu_difficulty u = None \<longrightarrow> p_difficulty ?p' = p_difficulty p"
    "pu_is_bookmarked u = None \<longrightarrow> p_is_bookmarked ?p' = p_is_bookmarked p"
    "pu_tags u = None \<longrightarrow> p_tags ?p' = p_tags p"
    "pu_notes u = None \<longrightarrow> p_notes ?p' = p_notes p"
    by (simp_all add: assign_fields_unset)
  have subj: "\<forall>x. u = only_subject x \<longrightarrow>
                ?p' = p\<lparr>p_subject := Some x,
                        p_updated_at := (if p_subject p = Some x then p_updated_at p
                                         else env_now e)\<rparr>"
  proof (intro allI impI)
    fix x
    assume u: "u = only_subject x"
    show "?p' = p\<lparr>p_subject := Some x,
                   p_updated_at := (if p_subject p = Some x then p_updated_at p
                                    else env_now e)\<rparr>"
    proof (cases "p_subject p = Some x")
      case True
      then have "p\<lparr>p_subject := Some x\<rparr> = p" by simp
      then show ?thesis using True by (simp add: u assign_only_subject)
    next
      case False
      then have "p\<lparr>p_subject := Some x\<rparr> \<noteq> p"
        by (metis problem.select_convs(7) problem.surjective problem.update_convs(7))
      then show ?thesis using False by (simp add: u assign_only_subject)
    qed
  qed
  have pid: "p_id p = problem_id"
    using assms find_id by (simp add: get_problem_def)
  from assms obtain before after where
    split: "problems db = before @ p # after"
    and first: "\<forall>q \<in> set before. p_id q \<noteq> problem_id"
    unfolding get_problem_def using find_split [of "\<lambda>q. p_id q = problem_id" "problems db" p]
    by blast
  have pid': "p_id ?p' = problem_id" using fixed(1) pid by simp
  have repl: "replace_problem ?p' (problems db) = before @ ?p' # after"
    unfolding split using first pid pid' by (intro replace_problem_split) simp_all
  have upd: "update_problem e db problem_id u = (Some ?p', db\<lparr>problems := before @ ?p' # after\<rparr>)"
    using res store repl by (simp add: prod_eq_iff)
  have tbl: "problems (snd (update_problem e db problem_id u)) = before @ ?p' # after"
    using upd by simp
  have same: "get_problem (snd (update_problem e db problem_id u)) problem_id = Some ?p'"
    unfolding get_problem_def tbl using first pid' by (rule find_same_id)
  have other: "\<forall>i. i \<noteq> problem_id \<longrightarrow>
                 get_problem (snd (update_problem e db problem_id u)) i = get_problem db i"
    unfolding get_problem_def tbl split using pid pid' by (auto intro: find_other_id)
  have usr: "users (snd (update_problem e db problem_id u)) = users db"
    using upd by simp
  show ?thesis
    apply (rule exI [of _ ?p'])
    apply (rule exI [of _ before])
    apply (rule exI [of _ after])
    apply (intro conjI)
    apply (rule upd split first same other fixed unset subj usr)+
    done
qed

theorem partial_update_frame_witness:
  "get_problem db2 1 = Some problem1
   \<and> update_problem env1 db2 1 (only_subject (ascii ''X''))
       = (Some (problem1\<lparr>p_subject := Some (ascii ''X''), p_updated_at := 1000000\<rparr>),
          db2\<lparr>problems := [problem1\<lparr>p_subject := Some (ascii ''X''), p_updated_at := 1000000\<rparr>,
                            problem2]\<rparr>)"
proof -
  have h: "get_problem db2 1 = Some problem1"
    by (simp add: get_problem_def db2_def problem1_def)
  have n: "p_subject problem1 \<noteq> Some (ascii ''X'')" "env_now env1 = 1000000"
    by (simp_all add: problem1_def env1_def ascii_def)
  have tbl: "problems db2 = [problem1, problem2]" "p_id problem1 = 1"
    by (simp_all add: db2_def problem1_def)
  from partial_update_frame [OF h, of env1 "only_subject (ascii ''X'')"]
  obtain p' before after where
    upd: "update_problem env1 db2 1 (only_subject (ascii ''X''))
            = (Some p', db2\<lparr>problems := before @ p' # after\<rparr>)"
    and split: "problems db2 = before @ problem1 # after"
    and first: "\<forall>q \<in> set before. p_id q \<noteq> 1"
    and eq: "\<forall>x. only_subject (ascii ''X'') = only_subject x \<longrightarrow>
               p' = problem1\<lparr>p_subject := Some x,
                      p_updated_at := (if p_subject problem1 = Some x then p_updated_at problem1
                                       else env_now env1)\<rparr>"
    by blast
  from eq have p': "p' = problem1\<lparr>p_subject := Some (ascii ''X''), p_updated_at := 1000000\<rparr>"
    using n by simp
  have "before = []"
  proof (cases before)
    case Nil
    then show ?thesis .
  next
    case (Cons q qs)
    with split tbl have "q = problem1" by simp
    with first Cons tbl(2) show ?thesis by simp
  qed
  with split tbl have "after = [problem2]" by simp
  with \<open>before = []\<close> upd p' h show ?thesis by simp
qed

section \<open>Rows written by the application can be read\<close>

lemma from_orm_succeeds_iff:
  "(\<exists>out. ProblemOut_from_orm p = Inr out)
     = ((\<exists>k. validate_str_list (parse_knowledge_tags (p_knowledge_tags p)) = Inr k)
        \<and> (\<exists>t. validate_str_list (parse_tags (p_tags p)) = Inr t))"
  by (auto simp: ProblemOut_from_orm_def split: sum.splits)

lemma assigned_tag_columns:
  "p_knowledge_tags (assign_fields u p)
     = (case pu_knowledge_tags u of None \<Rightarrow> p_knowledge_tags p | Some v \<Rightarrow> Some (json_dumps v))"
  "p_tags (assign_fields u p)
     = (case pu_tags u of None \<Rightarrow> p_tags p | Some v \<Rightarrow> Some (json_dumps v))"
  by (simp_all add: assign_fields_def Let_def split: option.split)

text \<open>
  A row that can be read can still be read after an update, whatever the payload; a tag
  list of the payload is then in the response with the surrogate pairs of its strings
  joined.  Here the empty list is kept: it is stored as the text \<open>[]\<close>.
\<close>

lemma from_orm_updated:
  assumes "\<exists>out. ProblemOut_from_orm p = Inr out"
    and "get_problem db problem_id = Some p"
  shows "\<exists>p' out'. fst (update_problem e db problem_id u) = Some p'
           \<and> ProblemOut_from_orm p' = Inr out'
           \<and> (\<forall>v. pu_knowledge_tags u = Some v \<and> list_all is_str v
                 \<longrightarrow> po_knowledge_tags out' = Some (map join_surrogates v))
           \<and> (\<forall>v. pu_tags u = Some v \<and> list_all is_str v
                 \<longrightarrow> po_tags out' = Some (map join_surrogates v))"
proof -
  let ?q = "assign_fields u p"
  let ?p' = "if ?q = p then p else ?q\<lparr>p_updated_at := env_now e\<rparr>"
  have res: "fst (update_problem e db problem_id u) = Some ?p'"
    using update_problem_found(1) [OF assms(2)] .
  have cols: "p_knowledge_tags ?p' = p_knowledge_tags ?q" "p_tags ?p' = p_tags ?q"
    by auto
  from assms(1) obtain k0 t0 where
    k0: "validate_str_list (parse_knowledge_tags (p_knowledge_tags p)) = Inr k0"
    and t0: "validate_str_list (parse_tags (p_tags p)) = Inr t0"
    using from_orm_succeeds_iff [of p] by blast
  have k: "\<exists>k. validate_str_list (parse_knowledge_tags (p_knowledge_tags ?q)) = Inr k
             \<and> (\<forall>v. pu_knowledge_tags u = Some v \<and> list_all is_str v
                   \<longrightarrow> k = Some (map join_surrogates v))"
  proof (cases "pu_knowledge_tags u")
    case None
    then show ?thesis by (simp add: assigned_tag_columns k0)
  next
    case (Some v)
    with stored_tags_decode(1) [of v] show ?thesis
      by (auto simp: assigned_tag_columns)
  qed
  have t: "\<exists>t. validate_str_list (parse_tags (p_tags ?q)) = Inr t
             \<and> (\<forall>v. pu_tags u = Some v \<and> list_all is_str v
                   \<longrightarrow> t = Some (map join_surrogates v))"
  proof (cases "pu_tags u")
    case None
    then show ?thesis by (simp add: assigned_tag_columns t0)
  next
    case (Some v)
    with stored_tags_decode(2) [of v] show ?thesis
      by (auto simp: assigned_tag_columns)
  qed
  from k t obtain k1 t1 where
    k1: "validate_str_list (parse_knowledge_tags (p_knowledge_tags ?q)) = Inr k1"
    "\<forall>v. pu_knowledge_tags u = Some v \<and> list_all is_str v \<longrightarrow> k1 = Some (map join_surrogates v)"
    and t1: "validate_str_list (parse_tags (p_tags ?q)) = Inr t1"
    "\<forall>v. pu_tags u = Some v \<and> list_all is_str v \<longrightarrow> t1 = Some (map join_surrogates v)"
    by blast
  obtain out' where out': "ProblemOut_from_orm ?p' = Inr out'"
    using from_orm_succeeds_iff [of ?p'] k1(1) t1(1) unfolding cols by blast
  then have "po_knowledge_tags out' = k1" "po_tags out' = t1"
    using k1(1) t1(1) unfolding ProblemOut_from_orm_def cols by auto
  with res out' k1(2) t1(2) show ?thesis by blast
qed

section \<open>Upload\<close>

lemma load_tag_field_unset: "\<not> truthy field \<Longrightarrow> load_tag_field field = Inr JNull"
  by (simp add: load_tag_field_def)

lemma load_tag_field_raises:
  "(load_tag_field field = Inl err) = (malformed_json field \<and> err = HTTPException 400)"
  by (auto simp: load_tag_field_def malformed_json_def split: option.splits)

lemma load_tag_field_returns:
  "(load_tag_field field = Inr j)
     = ((\<not> truthy field \<and> j = JNull) \<or> (truthy field \<and> json_loads (the field) = Some j))"
  by (auto simp: load_tag_field_def split: option.splits)

lemma validate_str_list_error:
  "validate_str_list v = Inl err \<Longrightarrow> err = ValidationError"
  by (cases v) (auto simp: validate_str_list_def split: if_splits)

lemma from_orm_error: "ProblemOut_from_orm p = Inl err \<Longrightarrow> err = ValidationError"
  by (auto simp: ProblemOut_from_orm_def split: sum.splits dest: validate_str_list_error)

text \<open>
  The route, step by step: the two guards, then the two tag fields, then the request
  model, then the row and the response.
\<close>

lemma upload_missing:
  "missing_content form \<Longrightarrow> upload_problem e db c form = (Inl (HTTPException 400), db)"
  by (simp add: upload_problem_def missing_content_def)

lemma upload_unreadable:
  "unreadable_file form \<Longrightarrow> upload_problem e db c form = (Inl (HTTPException 400), db)"
  by (auto simp: upload_problem_def unreadable_file_def split: option.splits)

lemma upload_malformed:
  assumes "malformed_json (f_knowledge_tags form) \<or> malformed_json (f_tags form)"
  shows "upload_problem e db c form = (Inl (HTTPException 400), db)"
proof (cases "missing_content form \<or> unreadable_file form")
  case True
  then show ?thesis using upload_missing upload_unreadable by blast
next
  case False
  then obtain content where
    c: "(case f_file form of
           Some file \<Rightarrow>
             (case uf_content file of
                None \<Rightarrow> Inl (HTTPException 400)
              | Some file_bytes \<Rightarrow>
                  Inr (file_marker (uf_filename file), Some (b64encode file_bytes)))
         | None \<Rightarrow> Inr (the (f_raw form), None)) = Inr content"
    by (auto simp: unreadable_file_def split: option.splits)
  have n: "\<not> (\<not> truthy (f_raw form) \<and> f_file form = None)"
    using False by (simp add: missing_content_def)
  show ?thesis
  proof (cases "malformed_json (f_knowledge_tags form)")
    case True
    then have "load_tag_field (f_knowledge_tags form) = Inl (HTTPException 400)"
      by (simp add: load_tag_field_raises)
    then show ?thesis
      unfolding upload_problem_def c using n by (simp split: prod.splits)
  next
    case False
    with assms have "load_tag_field (f_tags form) = Inl (HTTPException 400)"
      by (simp add: load_tag_field_raises)
    moreover obtain j where "load_tag_field (f_knowledge_tags form) = Inr j"
      using False load_tag_field_raises [of "f_knowledge_tags form"]
      by (cases "load_tag_field (f_knowledge_tags form)") auto
    ultimately show ?thesis
      unfolding upload_problem_def c using n by (simp split: prod.splits)
  qed
qed

lemma upload_past_guards:
  assumes "\<not> missing_content form" "\<not> unreadable_file form"
    and "\<not> malformed_json (f_knowledge_tags form)" "\<not> malformed_json (f_tags form)"
  shows "fst (upload_problem e db c form) \<noteq> Inl (HTTPException 400)"
proof -
  obtain content where
    c: "(case f_file form of
           Some file \<Rightarrow>
             (case uf_content file of
                None \<Rightarrow> Inl (HTTPException 400)
              | Some file_bytes \<Rightarrow>
                  Inr (file_marker (uf_filename file), Some (b64encode file_bytes)))
         | None \<Rightarrow> Inr (the (f_raw form), None)) = Inr content"
    using assms(2) by (auto simp: unreadable_file_def split: option.splits)
  have n: "\<not> (\<not> truthy (f_raw form) \<and> f_file form = None)"
    using assms(1) by (simp add: missing_content_def)
  obtain k where k: "load_tag_field (f_knowledge_tags form) = Inr k"
    using assms(3) load_tag_field_raises [of "f_knowledge_tags form"]
    by (cases "load_tag_field (f_knowledge_tags form)") auto
  obtain t where t: "load_tag_field (f_tags form) = Inr t"
    using assms(4) load_tag_field_raises [of "f_tags form"]
    by (cases "load_tag_field (f_tags form)") auto
  show ?thesis
    unfolding upload_problem_def c k t using n
    by (auto simp: Let_def split: prod.splits sum.splits
          dest: validate_str_list_error from_orm_error)
qed

lemma tag_field_ok_loads:
  assumes "tag_field_ok field"
  shows "\<exists>j tags. load_tag_field field = Inr j \<and> validate_str_list j = Inr tags"
proof (cases "truthy field")
  case False
  then show ?thesis by (simp add: load_tag_field_def validate_str_list_def)
next
  case True
  with assms obtain j where j: "json_loads (the field) = Some j"
    by (cases "json_loads (the field)") (auto simp: tag_field_ok_def)
  with assms True have "\<exists>tags. validate_str_list j = Inr tags"
    by (cases j) (auto simp: tag_field_ok_def validate_str_list_def)
  with True j show ?thesis by (simp add: load_tag_field_def)
qed

lemma validate_unset:
  "\<not> truthy field \<Longrightarrow> load_tag_field field = Inr j \<Longrightarrow> validate_str_list j = Inr tags
     \<Longrightarrow> tags = None"
  by (simp add: load_tag_field_def validate_str_list_def)

text \<open>
  With content, a file that can be read and tag fields that the request model accepts,
  the upload succeeds: it adds one row, owned by the caller, to the table and answers
  with the response built from it; a tag field that was not given or empty is NULL in
  the row and absent in the response.
\<close>

lemma upload_succeeds:
  assumes "\<not> missing_content form" "\<not> unreadable_file form"
    and "tag_field_ok (f_knowledge_tags form)" "tag_field_ok (f_tags form)"
  shows "\<exists>out p. upload_problem e db c form = (Inr out, db\<lparr>problems := problems db @ [p]\<rparr>)
           \<and> ProblemOut_from_orm p = Inr out
           \<and> p_owner_id p = Some (u_id c)
           \<and> (\<not> truthy (f_knowledge_tags form)
                 \<longrightarrow> p_knowledge_tags p = None \<and> po_knowledge_tags out = None)
           \<and> (\<not> truthy (f_tags form) \<longrightarrow> p_tags p = None \<and> po_tags out = None)"
proof -
  obtain content where
    c: "(case f_file form of
           Some file \<Rightarrow>
             (case uf_content file of
                None \<Rightarrow> Inl (HTTPException 400)
              | Some file_bytes \<Rightarrow>
                  Inr (file_marker (uf_filename file), Some (b64encode file_bytes)))
         | None \<Rightarrow> Inr (the (f_raw form), None)) = Inr content"
    using assms(2) by (auto simp: unreadable_file_def split: option.splits)
  obtain raw_store file_content where content: "content = (raw_store, file_content)"
    by (cases content)
  have n: "\<not> (\<not> truthy (f_raw form) \<and> f_file form = None)"
    using assms(1) by (simp add: missing_content_def)
  obtain k ks where k: "load_tag_field (f_knowledge_tags form) = Inr k"
    and ks: "validate_str_list k = Inr ks"
    using tag_field_ok_loads [OF assms(3)] by blast
  obtain t ts where t: "load_tag_field (f_tags form) = Inr t"
    and ts: "validate_str_list t = Inr ts"
    using tag_field_ok_loads [OF assms(4)] by blast
  let ?pin = "\<lparr> pc_source_type = f_source_type form, pc_raw = raw_store,
                 pc_file_content = file_content, pc_subject = f_subject form,
                 pc_course = f_course form, pc_problem_type = f_problem_type form,
                 pc_knowledge_tags = ks, pc_difficulty = f_difficulty form,
                 pc_tags = ts, pc_notes = f_notes form \<rparr>"
  let ?p = "fst (create_problem e db (u_id c) ?pin)"
  from from_orm_created [of e db "u_id c" ?pin] obtain out where
    out: "ProblemOut_from_orm ?p = Inr out"
    and ko: "\<not> truthy ks \<longrightarrow> po_knowledge_tags out = None"
    and to: "\<not> truthy ts \<longrightarrow> po_tags out = None"
    by auto
  have "upload_problem e db c form = (ProblemOut_from_orm ?p, snd (create_problem e db (u_id c) ?pin))"
    unfolding upload_problem_def c content using n
    by (auto simp: Let_def k t ks ts split: prod.splits)
  then have upd: "upload_problem e db c form = (Inr out, db\<lparr>problems := problems db @ [?p]\<rparr>)"
    using out create_problem_store [of e db "u_id c" ?pin] by simp
  have kn: "\<not> truthy (f_knowledge_tags form) \<longrightarrow> ks = None"
    using validate_unset [OF _ k ks] by blast
  have tn: "\<not> truthy (f_tags form) \<longrightarrow> ts = None"
    using validate_unset [OF _ t ts] by blast
  have kcol: "\<not> truthy (f_knowledge_tags form)
                \<longrightarrow> p_knowledge_tags ?p = None \<and> po_knowledge_tags out = None"
    using kn ko by (auto simp: created_row_tags(1) truthy_def)
  have tcol: "\<not> truthy (f_tags form) \<longrightarrow> p_tags ?p = None \<and> po_tags out = None"
    using tn to by (auto simp: created_row_tags(2) truthy_def)
  have own: "p_owner_id ?p = Some (u_id c)" by (rule created_row_tags(3))
  from upd out own kcol tcol show ?thesis by blast
qed

text \<open>
  What the route does: it fails with 400, and leaves the store as it was, exactly when
  no content is given (neither a non-empty \<open>raw\<close> nor a file), or the file cannot be
  read, or a non-empty tag field is not JSON text.  It succeeds when content is given,
  the file can be read and each tag field is not given, empty, JSON \<open>null\<close> or a JSON
  array of strings.
\<close>

lemma upload_validation:
  "(fst (upload_problem e db c form) = Inl (HTTPException 400))
     = (missing_content form \<or> unreadable_file form
        \<or> malformed_json (f_knowledge_tags form) \<or> malformed_json (f_tags form))
   \<and> (fst (upload_problem e db c form) = Inl (HTTPException 400)
        \<longrightarrow> snd (upload_problem e db c form) = db)
   \<and> (\<not> missing_content form \<and> \<not> unreadable_file form
        \<and> tag_field_ok (f_knowledge_tags form) \<and> tag_field_ok (f_tags form)
        \<longrightarrow> (\<exists>out. fst (upload_problem e db c form) = Inr out))"
proof -
  have a: "(fst (upload_problem e db c form) = Inl (HTTPException 400))
     = (missing_content form \<or> unreadable_file form
        \<or> malformed_json (f_knowledge_tags form) \<or> malformed_json (f_tags form))"
    using upload_missing [of form e db c] upload_unreadable [of form e db c]
      upload_malformed [of form e db c] upload_past_guards [of form e db c]
    by (metis fst_conv)
  have b: "fst (upload_problem e db c form) = Inl (HTTPException 400)
        \<longrightarrow> snd (upload_problem e db c form) = db"
    using a upload_missing [of form e db c] upload_unreadable [of form e db c]
      upload_malformed [of form e db c]
    by (metis snd_conv)
  have c: "\<not> missing_content form \<and> \<not> unreadable_file form
        \<and> tag_field_ok (f_knowledge_tags form) \<and> tag_field_ok (f_tags form)
        \<longrightarrow> (\<exists>out. fst (upload_problem e db c form) = Inr out)"
    using upload_succeeds [of form e db c] by (metis fst_conv)
  show ?thesis
    using a b c by blast
qed

text \<open>A tag field that is not JSON text is answered with 400.\<close>

lemma upload_not_json:
  "upload_problem env1 db_alice alice bad_tags_form = (Inl (HTTPException 400), db_alice)"
proof -
  have "ascii ''not json'' \<noteq> []" by (simp add: ascii_def)
  then have "malformed_json (f_knowledge_tags bad_tags_form)"
    by (simp add: bad_tags_form_def text_form_def malformed_json_def truthy_def
          json_loads_not_json)
  then show ?thesis using upload_malformed by blast
qed

text \<open>
  The field \<open>knowledge_tags = "null"\<close> is JSON and no array, and the upload succeeds,
  with the tags absent.
\<close>

lemma upload_json_null_accepted:
  "fst (upload_problem env1 db_alice alice null_tags_form)
       = Inr \<lparr> po_id = 1, po_owner_id = Some 1, po_source_type = ascii ''text'',
               po_file_content = None, po_subject = None, po_course = None,
               po_problem_type = None, po_knowledge_tags = None, po_difficulty = None,
               po_is_bookmarked = False, po_tags = None, po_notes = None,
               po_created_at = 1000000, po_updated_at = 1000000 \<rparr>"
proof -
  have "ascii ''null'' \<noteq> []" by (simp add: ascii_def)
  then have k: "load_tag_field (Some (ascii ''null'')) = Inr JNull"
    by (simp add: load_tag_field_def json_loads_null truthy_def)
  have t: "load_tag_field None = Inr JNull"
    by (simp add: load_tag_field_def truthy_def)
  have v: "validate_str_list JNull = Inr None"
    by (simp add: validate_str_list_def)
  have r: "ascii ''2+2=?'' \<noteq> []"
    by (simp add: ascii_def)
  show ?thesis
    by (simp add: null_tags_form_def text_form_def upload_problem_def k t v r
          create_problem_def ProblemOut_from_orm_def parse_knowledge_tags_def parse_tags_def
          truthy_def db_alice_def alice_def env1_def next_id_empty Let_def)
qed

text \<open>
  Claim C7 fails on the code: a supplied tag field that is not a JSON array is not
  always answered with 400.  The field \<open>knowledge_tags = "42"\<close> is JSON, so
  \<open>json.loads\<close> raises nothing and the handler of the route, which catches the decoding
  error only, is not entered; the number then reaches the request model, whose
  \<open>ValidationError\<close> the route does not catch.  Nothing is stored.
\<close>

theorem upload_non_array_uncaught:
  "f_knowledge_tags number_tags_form = Some (ascii ''42'')
   \<and> json_loads (ascii ''42'') = Some (JInt 42)
   \<and> \<not> missing_content number_tags_form
   \<and> upload_problem env1 db_alice alice number_tags_form = (Inl ValidationError, db_alice)"
proof -
  have "ascii ''42'' \<noteq> []" by (simp add: ascii_def)
  then have k: "load_tag_field (Some (ascii ''42'')) = Inr (JInt 42)"
    by (simp add: load_tag_field_def json_loads_42 truthy_def)
  have t: "load_tag_field None = Inr JNull"
    by (simp add: load_tag_field_def truthy_def)
  have r: "ascii ''2+2=?'' \<noteq> []"
    by (simp add: ascii_def)
  have m: "\<not> missing_content number_tags_form"
    using r by (simp add: missing_content_def number_tags_form_def text_form_def truthy_def)
  have "upload_problem env1 db_alice alice number_tags_form = (Inl ValidationError, db_alice)"
    by (simp add: number_tags_form_def text_form_def upload_problem_def k t r truthy_def
          validate_str_list_def)
  with m show ?thesis
    by (simp add: json_loads_42 number_tags_form_def text_form_def)
qed

lemma tag_field_ok_unset: "\<not> truthy field \<Longrightarrow> tag_field_ok field"
  by (simp add: tag_field_ok_def)

text \<open>
  Claim C10.  An empty \<open>raw\<close> with no file is missing content (400, store unchanged).  An
  empty \<open>knowledge_tags\<close> or \<open>tags\<close> field is handled as the field not given: the route
  does the same as without it.  It is not rejected: with content, a file that can be
  read and the other tag field one that the request model accepts, the upload succeeds,
  the row it adds has NULL in the column and the response has the list absent.
\<close>

theorem empty_fields_are_absent:
  "(f_raw form = Some [] \<and> f_file form = None
      \<longrightarrow> upload_problem e db c form = (Inl (HTTPException 400), db))
   \<and> upload_problem e db c (form\<lparr>f_knowledge_tags := Some []\<rparr>)
       = upload_problem e db c (form\<lparr>f_knowledge_tags := None\<rparr>)
   \<and> upload_problem e db c (form\<lparr>f_tags := Some []\<rparr>)
       = upload_problem e db c (form\<lparr>f_tags := None\<rparr>)
   \<and> (f_knowledge_tags form = Some [] \<and> \<not> missing_content form \<and> \<not> unreadable_file form
        \<and> tag_field_ok (f_tags form)
        \<longrightarrow> (\<exists>out p. upload_problem e db c form
                        = (Inr out, db\<lparr>problems := problems db @ [p]\<rparr>)
                \<and> p_knowledge_tags p = None \<and> po_knowledge_tags out = None))
   \<and> (f_tags form = Some [] \<and> \<not> missing_content form \<and> \<not> unreadable_file form
        \<and> tag_field_ok (f_knowledge_tags form)
        \<longrightarrow> (\<exists>out p. upload_problem e db c form
                        = (Inr out, db\<lparr>problems := problems db @ [p]\<rparr>)
                \<and> p_tags p = None \<and> po_tags out = None))"
proof -
  have e0: "load_tag_field (Some []) = load_tag_field None"
    by (simp add: load_tag_field_def truthy_def)
  have a: "f_raw form = Some [] \<and> f_file form = None
             \<longrightarrow> upload_problem e db c form = (Inl (HTTPException 400), db)"
    using upload_missing [of form e db c] by (simp add: missing_content_def truthy_def)
  have b: "upload_problem e db c (form\<lparr>f_knowledge_tags := Some []\<rparr>)
             = upload_problem e db c (form\<lparr>f_knowledge_tags := None\<rparr>)"
    by (simp add: upload_problem_def e0
          cong: option.case_cong sum.case_cong prod.case_cong if_cong)
  have c: "upload_problem e db c (form\<lparr>f_tags := Some []\<rparr>)
             = upload_problem e db c (form\<lparr>f_tags := None\<rparr>)"
    by (simp add: upload_problem_def e0
          cong: option.case_cong sum.case_cong prod.case_cong if_cong)
  have d: "\<exists>out p. upload_problem e db c form = (Inr out, db\<lparr>problems := problems db @ [p]\<rparr>)
                \<and> p_knowledge_tags p = None \<and> po_knowledge_tags out = None"
    if "f_knowledge_tags form = Some []" "\<not> missing_content form" "\<not> unreadable_file form"
      "tag_field_ok (f_tags form)"
  proof -
    have u: "\<not> truthy (f_knowledge_tags form)" using that(1) by (simp add: truthy_def)
    from upload_succeeds [OF that(2,3) tag_field_ok_unset [OF u] that(4), of e db c] u
    show ?thesis by blast
  qed
  have f: "\<exists>out p. upload_problem e db c form = (Inr out, db\<lparr>problems := problems db @ [p]\<rparr>)
                \<and> p_tags p = None \<and> po_tags out = None"
    if "f_tags form = Some []" "\<not> missing_content form" "\<not> unreadable_file form"
      "tag_field_ok (f_knowledge_tags form)"
  proof -
    have u: "\<not> truthy (f_tags form)" using that(1) by (simp add: truthy_def)
    from upload_succeeds [OF that(2,3,4) tag_field_ok_unset [OF u], of e db c] u
    show ?thesis by blast
  qed
  from a b c d f show ?thesis by blast
qed

lemma upload_empty_tags_form:
  "upload_problem env1 db_alice alice empty_tags_form
     = (Inr \<lparr> po_id = 1, po_owner_id = Some 1, po_source_type = ascii ''text'',
               po_file_content = None, po_subject = None, po_course = None,
               po_problem_type = None, po_knowledge_tags = None, po_difficulty = None,
               po_is_bookmarked = False, po_tags = None, po_notes = None,
               po_created_at = 1000000, po_updated_at = 1000000 \<rparr>,
        db_alice\<lparr>problems :=
          [\<lparr> p_id = 1, p_owner_id = Some 1, p_source_type = ascii ''text'',
             p_raw = Some (ascii ''2+2=?''), p_file_content = None, p_parsed = None,
             p_subject = None, p_course = None, p_problem_type = None,
             p_knowledge_tags = None, p_difficulty = None, p_is_bookmarked = False,
             p_tags = None, p_notes = None,
             p_created_at = 1000000, p_updated_at = 1000000 \<rparr>]\<rparr>)"
proof -
  have t: "load_tag_field (Some []) = Inr JNull"
    by (simp add: load_tag_field_def truthy_def)
  have v: "validate_str_list JNull = Inr None"
    by (simp add: validate_str_list_def)
  have r: "ascii ''2+2=?'' \<noteq> []"
    by (simp add: ascii_def)
  show ?thesis
    by (simp add: empty_tags_form_def text_form_def upload_problem_def t v r
          create_problem_def ProblemOut_from_orm_def parse_knowledge_tags_def parse_tags_def
          truthy_def db_alice_def alice_def env1_def next_id_empty Let_def)
qed

theorem empty_fields_are_absent_witness:
  "f_raw empty_raw_form = Some [] \<and> f_file empty_raw_form = None
   \<and> upload_problem env1 db_alice alice empty_raw_form = (Inl (HTTPException 400), db_alice)
   \<and> f_knowledge_tags empty_tags_form = Some [] \<and> f_tags empty_tags_form = Some []
   \<and> \<not> missing_content empty_tags_form \<and> \<not> unreadable_file empty_tags_form
   \<and> tag_field_ok (f_knowledge_tags empty_tags_form) \<and> tag_field_ok (f_tags empty_tags_form)
   \<and> (\<exists>out p. upload_problem env1 db_alice alice empty_tags_form
                 = (Inr out, db_alice\<lparr>problems := problems db_alice @ [p]\<rparr>)
          \<and> p_knowledge_tags p = None \<and> po_knowledge_tags out = None)
   \<and> (\<exists>out p. upload_problem env1 db_alice alice empty_tags_form
                 = (Inr out, db_alice\<lparr>problems := problems db_alice @ [p]\<rparr>)
          \<and> p_tags p = None \<and> po_tags out = None)
   \<and> fst (upload_problem env1 db_alice alice empty_tags_form)
       = Inr \<lparr> po_id = 1, po_owner_id = Some 1, po_source_type = ascii ''text'',
               po_file_content = None, po_subject = None, po_course = None,
               po_problem_type = None, po_knowledge_tags = None, po_difficulty = None,
               po_is_bookmarked = False, po_tags = None, po_notes = None,
               po_created_at = 1000000, po_updated_at = 1000000 \<rparr>"
proof -
  have h: "f_raw empty_raw_form = Some []" "f_file empty_raw_form = None"
    "f_knowledge_tags empty_tags_form = Some []" "f_tags empty_tags_form = Some []"
    by (simp_all add: empty_raw_form_def empty_tags_form_def text_form_def)
  have "ascii ''2+2=?'' \<noteq> []" by (simp add: ascii_def)
  then have g: "\<not> missing_content empty_tags_form" "\<not> unreadable_file empty_tags_form"
    by (simp_all add: empty_tags_form_def text_form_def missing_content_def
          unreadable_file_def truthy_def)
  have ok: "tag_field_ok (f_knowledge_tags empty_tags_form)"
    "tag_field_ok (f_tags empty_tags_form)"
    by (simp_all add: h tag_field_ok_def truthy_def)
  have r: "fst (upload_problem env1 db_alice alice empty_tags_form)
       = Inr \<lparr> po_id = 1, po_owner_id = Some 1, po_source_type = ascii ''text'',
               po_file_content = None, po_subject = None, po_course = None,
               po_problem_type = None, po_knowledge_tags = None, po_difficulty = None,
               po_is_bookmarked = False, po_tags = None, po_notes = None,
               po_created_at = 1000000, po_updated_at = 1000000 \<rparr>"
    by (simp add: upload_empty_tags_form)
  from h g ok r empty_fields_are_absent [of empty_raw_form env1 db_alice alice]
    empty_fields_are_absent [of empty_tags_form env1 db_alice alice]
  show ?thesis by blast
qed

section \<open>Passwords and authentication\<close>

lemma unidentified_hash_raises:
  "\<not> identify hashed \<Longrightarrow> verify_password H plain hashed = Inl UnknownHashError"
  by (simp add: verify_password_def pwd_context_verify_def)

text \<open>
  Claim C3 fails on the code: \<open>verify_password\<close> hands the stored text to the password
  context and catches nothing, and the context raises \<open>UnknownHashError\<close> on a text
  that is not a hash of its scheme, whatever the handler.
\<close>

theorem verify_password_malformed_hash:
  "verify_password H (ascii ''secret123'') (ascii ''not-a-hash'') = Inl UnknownHashError"
  by (simp add: verify_password_def pwd_context_verify_def identify_def pbkdf2_sha256_ident_def
        ascii_def)

text \<open>
  The test doubles do not show it: they accept what they wrote and answer \<open>False\<close> on
  the same input.
\<close>

lemma mock_verify_password_hash:
  "mock_verify_password password (mock_password_hash password) = True"
  by (simp add: mock_verify_password_def mock_password_hash_def)

lemma mock_verify_password_malformed_hash:
  "mock_verify_password (ascii ''secret123'') (ascii ''not-a-hash'') = False"
  by (simp add: mock_verify_password_def ascii_def)

lemma find_map_flags:
  "find (\<lambda>u. u_username u = name) (map (\<lambda>u. u\<lparr>u_is_active := f u\<rparr>) us)
     = map_option (\<lambda>u. u\<lparr>u_is_active := f u\<rparr>) (find (\<lambda>u. u_username u = name) us)"
  by (induction us) simp_all

lemma get_user_with_active_flags:
  "get_user_by_username (with_active_flags f db) name
     = map_option (\<lambda>u. u\<lparr>u_is_active := f u\<rparr>) (get_user_by_username db name)"
  by (simp add: get_user_by_username_def with_active_flags_def find_map_flags)

text \<open>
  What \<open>authenticate_user\<close> does.  It returns the user exactly when the username is in
  the store and \<open>verify_password\<close> returns \<open>True\<close> on the stored hash; it returns \<open>None\<close>
  when the username is unknown and when \<open>verify_password\<close> returns \<open>False\<close>, the same
  value in both cases; and when \<open>verify_password\<close> raises, so does \<open>authenticate_user\<close>.
  The active flag plays no part: with the flags of the store set in any way, the answer
  is the same user carrying the new flag.
\<close>

lemma authenticate_user_spec:
  "(authenticate_user H db username password = Inr (Some user))
     = (get_user_by_username db username = Some user
        \<and> verify_password H password (u_hashed_password user) = Inr True)
   \<and> (get_user_by_username db username = None
        \<longrightarrow> authenticate_user H db username password = Inr None)
   \<and> (\<forall>u. get_user_by_username db username = Some u
            \<and> verify_password H password (u_hashed_password u) = Inr False
        \<longrightarrow> authenticate_user H db username password = Inr None)
   \<and> (\<forall>u err. get_user_by_username db username = Some u
            \<and> verify_password H password (u_hashed_password u) = Inl err
        \<longrightarrow> authenticate_user H db username password = Inl err)
   \<and> authenticate_user H (with_active_flags f db) username password
       = map_sum id (map_option (\<lambda>u. u\<lparr>u_is_active := f u\<rparr>))
           (authenticate_user H db username password)"
proof -
  have a: "(authenticate_user H db username password = Inr (Some user))
     = (get_user_by_username db username = Some user
        \<and> verify_password H password (u_hashed_password user) = Inr True)"
    by (auto simp: authenticate_user_def split: option.splits sum.splits if_splits)
  have b: "get_user_by_username db username = None
        \<longrightarrow> authenticate_user H db username password = Inr None"
    by (simp add: authenticate_user_def)
  have c: "\<forall>u. get_user_by_username db username = Some u
            \<and> verify_password H password (u_hashed_password u) = Inr False
        \<longrightarrow> authenticate_user H db username password = Inr None"
    by (simp add: authenticate_user_def)
  have r: "\<forall>u err. get_user_by_username db username = Some u
            \<and> verify_password H password (u_hashed_password u) = Inl err
        \<longrightarrow> authenticate_user H db username password = Inl err"
    by (simp add: authenticate_user_def)
  have d: "authenticate_user H (with_active_flags f db) username password
       = map_sum id (map_option (\<lambda>u. u\<lparr>u_is_active := f u\<rparr>))
           (authenticate_user H db username password)"
    by (cases "get_user_by_username db username")
       (auto simp: authenticate_user_def get_user_with_active_flags
          split: sum.splits)
  from a b c r d show ?thesis by blast
qed

text \<open>
  Claim C6 fails on the code: \<open>authenticate_user\<close> does not return \<open>None\<close> whenever the
  password does not verify.  The user \<open>carol\<close> is in the store with a stored hash that
  is not of the configured scheme; \<open>verify_password\<close> raises \<open>UnknownHashError\<close> on it,
  \<open>authenticate_user\<close> catches nothing, and the login ends with that exception instead
  of the answer for wrong credentials, whatever the handler and the password.
\<close>

theorem authenticate_user_unidentified_hash:
  "get_user_by_username db_carol (ascii ''carol'') = Some carol
   \<and> \<not> identify (u_hashed_password carol)
   \<and> authenticate_user H db_carol (ascii ''carol'') password = Inl UnknownHashError
   \<and> login H key e db_carol (ascii ''carol'') password = Inl UnknownHashError"
proof -
  have g: "get_user_by_username db_carol (ascii ''carol'') = Some carol"
    by (simp add: get_user_by_username_def db_carol_def alice_def carol_def ascii_def)
  have i: "\<not> identify (u_hashed_password carol)"
    by (simp add: identify_def carol_def pbkdf2_sha256_ident_def ascii_def)
  have a: "authenticate_user H db_carol (ascii ''carol'') password = Inl UnknownHashError"
    by (simp add: authenticate_user_def g unidentified_hash_raises [OF i])
  then have "login H key e db_carol (ascii ''carol'') password = Inl UnknownHashError"
    by (simp add: login_def)
  with g i a show ?thesis by simp
qed

section \<open>Token expiry\<close>

lemma token_of_create_access_token:
  "create_access_token key issued sub delta
     = JWS key \<lparr> c_sub = sub,
                 c_exp = Some (timegm (issued + (if truthy_int delta then the delta
                                                  else minutes ACCESS_TOKEN_EXPIRE_MINUTES))) \<rparr>"
  by (simp add: create_access_token_def jwt_encode_def Let_def)

text \<open>
  Claim C4, amended.  A token issued for a user of the store carries as \<open>exp\<close> the whole
  seconds of the time of issue plus the lifetime.  It verifies to that user at every
  time whose whole second is at most \<open>exp\<close>, the second \<open>exp\<close> itself included, and is
  rejected with 401 at every time whose whole second is greater.
\<close>

theorem token_expiry:
  assumes "get_user_by_username db (u_username U) = Some U"
  shows "get_current_user key utcnow db
           (create_access_token key issued (Some (u_username U)) delta)
         = (if timegm utcnow
                 \<le> timegm (issued + (if truthy_int delta then the delta
                                       else minutes ACCESS_TOKEN_EXPIRE_MINUTES))
            then Inr U else Inl (HTTPException 401))"
  using assms
  by (simp add: token_of_create_access_token get_current_user_def jwt_decode_def)

theorem token_expiry_witness:
  "get_user_by_username db_alice (u_username alice) = Some alice
   \<and> get_current_user SECRET_KEY_default 604799999999 db_alice
        (create_access_token SECRET_KEY_default 0 (Some (u_username alice)) None) = Inr alice
   \<and> get_current_user SECRET_KEY_default 604801000000 db_alice
        (create_access_token SECRET_KEY_default 0 (Some (u_username alice)) None)
       = Inl (HTTPException 401)"
proof -
  have h: "get_user_by_username db_alice (u_username alice) = Some alice"
    by (simp add: get_user_by_username_def db_alice_def)
  have t: "timegm (0 + minutes ACCESS_TOKEN_EXPIRE_MINUTES) = 604800"
    "timegm 604799999999 = 604799" "timegm 604801000000 = 604801"
    by (simp_all add: timegm_def minutes_def ACCESS_TOKEN_EXPIRE_MINUTES_def)
  show ?thesis
    using h t token_expiry [OF h, of SECRET_KEY_default 604799999999 0 None]
      token_expiry [OF h, of SECRET_KEY_default 604801000000 0 None]
    by (simp add: truthy_int_def)
qed

text \<open>
  Claim C4 as stated fails at the boundary: a token issued at time 0 carries
  \<open>exp = 604800\<close>, and at the verification time 604800 s, exactly at expiry, it still
  verifies.
\<close>

theorem token_valid_at_expiry:
  "create_access_token SECRET_KEY_default 0 (Some (ascii ''alice'')) None
     = JWS SECRET_KEY_default \<lparr> c_sub = Some (ascii ''alice''), c_exp = Some 604800 \<rparr>
   \<and> timegm 604800000000 = 604800
   \<and> get_current_user SECRET_KEY_default 604800000000 db_alice
        (create_access_token SECRET_KEY_default 0 (Some (ascii ''alice'')) None) = Inr alice"
  by (simp add: create_access_token_def jwt_encode_def truthy_int_def timegm_def minutes_def
        ACCESS_TOKEN_EXPIRE_MINUTES_def get_current_user_def jwt_decode_def
        get_user_by_username_def db_alice_def alice_def)

lemma login_issues_token:
  "authenticate_user H db username password = Inr (Some user) \<Longrightarrow>
     login H key e db username password
       = Inr (create_access_token key (env_now e) (Some (u_username user)) None)"
  by (simp add: login_def)

end
